theory Spec2Isabelle
  imports Main "HOL-Library.Word"
begin

section \<open>The deal harness of \<^verbatim>\<open>itests/kit/deals.go\<close>\<close>

text \<open>
  The file \<^verbatim>\<open>itests/kit/deals.go\<close> waits for storage deals to reach a state.
  Everything it does beyond computing a value is an effect on something outside it: it
  queries two nodes (\<^verbatim>\<open>dh.client\<close>, \<^verbatim>\<open>dh.miner\<close>), it sleeps, it writes to the
  test log, and it ends the test with \<^verbatim>\<open>t.Fatal\<close> or a failed \<^verbatim>\<open>require.NoError\<close>.
  The embedding makes each of them explicit:
  \<^item> the nodes and the time are a world \<open>'w\<close>; every query takes the world and returns
    the answer together with the world after it, so the answer to the same query may
    differ from one call to the next;
  \<^item> \<^verbatim>\<open>t.Fatal\<close> and \<^verbatim>\<open>require.NoError\<close> end the calling goroutine
    (\<^verbatim>\<open>runtime.Goexit\<close>): they are a value of type \<open>failure\<close>, returned on the
    left of a sum, and nothing after them runs;
  \<^item> \<^verbatim>\<open>t.Log\<close>, \<^verbatim>\<open>t.Logf\<close> and \<^verbatim>\<open>time.Sleep\<close> append an event to a trace.
\<close>

subsection \<open>Data\<close>

text \<open>\<^verbatim>\<open>cid.Cid\<close> wraps a string; \<^verbatim>\<open>abi.DealID\<close> and \<^verbatim>\<open>abi.SectorNumber\<close> are
  \<^verbatim>\<open>uint64\<close>; \<^verbatim>\<open>api.SectorState\<close> and \<^verbatim>\<open>sealing.SectorState\<close> are strings;
  \<^verbatim>\<open>time.Duration\<close> counts nanoseconds.\<close>

type_synonym Cid = string
type_synonym DealID = "64 word"
type_synonym SectorNumber = "64 word"
type_synonym SectorState = string
type_synonym Duration = int

text \<open>Modelled from the spec: the declaration of \<^verbatim>\<open>storagemarket.StorageDealStatus\<close>
  (package go-fil-markets) is not among the sources. It is the lifecycle state of a
  deal, an enumeration: distinct \<^verbatim>\<open>uint64\<close> constants whose zero value is
  \<^verbatim>\<open>StorageDealUnknown\<close>. The constants that \<^verbatim>\<open>deals.go\<close> names are constructors;
  every other status is \<open>StorageDealOther\<close> with its number.\<close>

datatype StorageDealStatus =
    StorageDealUnknown
  | StorageDealProposalRejected
  | StorageDealSealing
  | StorageDealFinalizing
  | StorageDealActive
  | StorageDealFailing
  | StorageDealError
  | StorageDealAwaitingPreCommit
  | StorageDealOther nat

text \<open>Modelled from the spec: the declarations of \<^verbatim>\<open>api.DealInfo\<close>,
  \<^verbatim>\<open>storagemarket.MinerDeal\<close> and \<^verbatim>\<open>api.SectorInfo\<close> are not among the sources. A
  deal has an identity, a lifecycle state and a diagnostic message; a sector has a
  lifecycle state and the identities of the deals it contains. The records have the
  fields that \<^verbatim>\<open>deals.go\<close> reads, under the names it reads them by (with a prefix
  where two records share a name).\<close>

record DealInfo =
  ProposalCid :: Cid
  State :: StorageDealStatus
  Message :: string
  DealID :: DealID

record MinerDeal =
  md_ProposalCid :: Cid
  md_State :: StorageDealStatus
  md_Message :: string
  md_DealID :: DealID

record SectorInfo =
  si_State :: SectorState
  Deals :: "DealID list"

text \<open>How a wait ends the test: the three \<^verbatim>\<open>t.Fatal\<close> calls on a deal's state
  (\<^verbatim>\<open>"deal rejected"\<close>, \<^verbatim>\<open>"deal failed"\<close>, \<^verbatim>\<open>"deal errored"\<close> with
  \<^verbatim>\<open>di.Message\<close>), \<^verbatim>\<open>t.Fatal("context timeout")\<close>, and a
  \<^verbatim>\<open>require.NoError\<close> on a query that returned an error.\<close>

datatype failure =
    DealRejected
  | DealFailed
  | DealErrored string
  | ContextTimeout
  | NoErrorFailed string

text \<open>A \<^verbatim>\<open>context.Context\<close>: whether its \<^verbatim>\<open>Done\<close> channel is closed depends on
  the moment, that is on the world.\<close>

record 'w Context =
  Done :: "'w \<Rightarrow> bool"

text \<open>Modelled from the spec: the methods of \<^verbatim>\<open>TestFullNode\<close> and \<^verbatim>\<open>TestMiner\<close> are
  not among the sources; they are the queries that the specification lists as consumed
  from collaborators (deal status, sector listing, sector status), and nothing is
  assumed of them: each is a parameter that takes the world and returns
  \<^verbatim>\<open>(value, err)\<close> and the world after the call. \<open>DealHarness\<close> holds the queries of
  \<^verbatim>\<open>dh.client\<close> and \<^verbatim>\<open>dh.miner\<close> that \<^verbatim>\<open>WaitDealStates\<close> calls, and the two things
  the Go runtime decides: what \<^verbatim>\<open>time.Sleep\<close> of a duration does to the world, and
  the order in which the \<open>n\<close>-th \<^verbatim>\<open>range todo\<close> visits the keys of the map (Go
  leaves the iteration order of a map unspecified).\<close>

record 'w DealHarness =
  ClientGetDealInfo :: "'w Context \<Rightarrow> Cid \<Rightarrow> 'w \<Rightarrow> (string + DealInfo) \<times> 'w"
  MarketListIncompleteDeals :: "'w Context \<Rightarrow> 'w \<Rightarrow> (string + MinerDeal list) \<times> 'w"
  SectorsList :: "'w Context \<Rightarrow> 'w \<Rightarrow> (string + SectorNumber list) \<times> 'w"
  SectorsStatus :: "'w Context \<Rightarrow> SectorNumber \<Rightarrow> bool \<Rightarrow> 'w \<Rightarrow> (string + SectorInfo) \<times> 'w"
  time_Sleep :: "Duration \<Rightarrow> 'w \<Rightarrow> 'w"
  range_order :: "nat \<Rightarrow> Cid list \<Rightarrow> Cid list"

text \<open>\<^verbatim>\<open>require.NoError(dh.t, err)\<close> after a query.\<close>

definition require_NoError :: "(string + 'a) \<times> 'w \<Rightarrow> (failure + 'a) \<times> 'w" where
  "require_NoError r =
     (case r of (Inl err, w) \<Rightarrow> (Inl (NoErrorFailed err), w) | (Inr v, w) \<Rightarrow> (Inr v, w))"

subsection \<open>The state checks\<close>

text \<open>\<^verbatim>\<open>type DealStateCheck func(ctx context.Context, di *api.DealInfo, sn abi.SectorNumber) bool\<close>\<close>

type_synonym 'w DealStateCheck =
  "'w Context \<Rightarrow> DealInfo \<Rightarrow> SectorNumber \<Rightarrow> 'w \<Rightarrow> (failure + bool) \<times> 'w"

text \<open>\<^verbatim>\<open>DealState\<close>: the loop over \<^verbatim>\<open>expect\<close> returns true at the first equal
  state; after the loop the switch ends the test on the three failed states and
  the check returns false otherwise.\<close>

fun DealState_range :: "StorageDealStatus \<Rightarrow> StorageDealStatus list \<Rightarrow> bool" where
  "DealState_range s [] = False"
| "DealState_range s (state # expect) = (if s = state then True else DealState_range s expect)"

definition DealState :: "StorageDealStatus list \<Rightarrow> 'w DealStateCheck" where
  "DealState expect ctx di sn w =
     (if DealState_range (State di) expect then (Inr True, w)
      else (case State di of
              StorageDealProposalRejected \<Rightarrow> (Inl DealRejected, w)
            | StorageDealFailing \<Rightarrow> (Inl DealFailed, w)
            | StorageDealError \<Rightarrow> (Inl (DealErrored (Message di)), w)
            | _ \<Rightarrow> (Inr False, w)))"

text \<open>\<^verbatim>\<open>DealSectorState\<close>: false at once for sector number 0, else one
  \<^verbatim>\<open>SectorsStatus\<close> query (\<^verbatim>\<open>showOnChainInfo = false\<close>) and the comparison.\<close>

definition DealSectorState :: "'w DealHarness \<Rightarrow> SectorState \<Rightarrow> 'w DealStateCheck" where
  "DealSectorState dh expect ctx di sn w =
     (if sn = 0 then (Inr False, w)
      else (case require_NoError (SectorsStatus dh ctx sn False w) of
              (Inl e, w') \<Rightarrow> (Inl e, w')
            | (Inr si, w') \<Rightarrow> (Inr (si_State si = expect), w')))"

text \<open>\<^verbatim>\<open>DealOn\<close>: the loop calls \<^verbatim>\<open>cb\<close> at the first equal state and breaks; the
  check returns true. The callback is a \<^verbatim>\<open>func()\<close>: it has no result, it changes the
  world, and like any code of the test it may end the test (the callback that
  \<^verbatim>\<open>WaitDealSealed\<close> passes calls \<^verbatim>\<open>require.NoError\<close>), in which case \<^verbatim>\<open>DealOn\<close>
  does not return.\<close>

type_synonym 'w callback = "'w \<Rightarrow> (failure + unit) \<times> 'w"

fun DealOn_range ::
  "'w callback \<Rightarrow> StorageDealStatus \<Rightarrow> StorageDealStatus list \<Rightarrow> 'w \<Rightarrow> (failure + unit) \<times> 'w"
where
  "DealOn_range cb s [] w = (Inr (), w)"
| "DealOn_range cb s (state # states) w = (if s = state then cb w else DealOn_range cb s states w)"

definition DealOn :: "'w callback \<Rightarrow> StorageDealStatus list \<Rightarrow> 'w DealStateCheck" where
  "DealOn cb states ctx di sn w =
     (case DealOn_range cb (State di) states w of
        (Inl e, w') \<Rightarrow> (Inl e, w')
      | (Inr u, w') \<Rightarrow> (Inr True, w'))"

subsection \<open>The polling wait\<close>

text \<open>What a wait leaves behind besides its result: the lines it logged and the
  sleeps it made, in order.\<close>

datatype event =
    Log_Wait_complete DealInfo
  | Logf_Deal_state DealID StorageDealStatus StorageDealStatus
  | Sleep Duration
  | Log_COMPLETE MinerDeal
  | Log_Deal_state StorageDealStatus

record 'w run =
  world :: 'w
  trace :: "event list"

definition Second :: Duration where
  "Second = 1000000000"

text \<open>The loop labelled \<^verbatim>\<open>sloop\<close>: \<^verbatim>\<open>ms\<close> starts as the zero value of
  \<^verbatim>\<open>abi.SectorNumber\<close>; the sectors of the list are visited in order, one
  \<^verbatim>\<open>SectorsStatus\<close> query each, and the first sector whose \<^verbatim>\<open>Deals\<close> holds the
  deal's \<^verbatim>\<open>DealID\<close> is assigned to \<^verbatim>\<open>ms\<close> and ends the loop.\<close>

fun sloop ::
  "'w DealHarness \<Rightarrow> 'w Context \<Rightarrow> DealID \<Rightarrow> SectorNumber list \<Rightarrow> 'w \<Rightarrow> (failure + SectorNumber) \<times> 'w"
where
  "sloop dh ctx dealID [] w = (Inr 0, w)"
| "sloop dh ctx dealID (s # sl) w =
     (case require_NoError (SectorsStatus dh ctx s False w) of
        (Inl e, w') \<Rightarrow> (Inl e, w')
      | (Inr si, w') \<Rightarrow>
          if dealID \<in> set (Deals si) then (Inr s, w') else sloop dh ctx dealID sl w')"

text \<open>Lines 149 to 168: the three queries and \<^verbatim>\<open>sloop\<close>. The result is
  \<^verbatim>\<open>di\<close>, \<^verbatim>\<open>mds\<close> and \<^verbatim>\<open>ms\<close>.\<close>

definition WaitDealStates_fetch ::
  "'w DealHarness \<Rightarrow> 'w Context \<Rightarrow> Cid \<Rightarrow> 'w \<Rightarrow> (failure + DealInfo \<times> MinerDeal list \<times> SectorNumber) \<times> 'w"
where
  "WaitDealStates_fetch dh ctx deal w =
     (case require_NoError (ClientGetDealInfo dh ctx deal w) of
        (Inl e, w1) \<Rightarrow> (Inl e, w1)
      | (Inr di, w1) \<Rightarrow>
     (case require_NoError (MarketListIncompleteDeals dh ctx w1) of
        (Inl e, w2) \<Rightarrow> (Inl e, w2)
      | (Inr mds, w2) \<Rightarrow>
     (case require_NoError (SectorsList dh ctx w2) of
        (Inl e, w3) \<Rightarrow> (Inl e, w3)
      | (Inr sl, w3) \<Rightarrow>
     (case sloop dh ctx (DealID di) sl w3 of
        (Inl e, w4) \<Rightarrow> (Inl e, w4)
      | (Inr ms, w4) \<Rightarrow> (Inr (di, mds, ms), w4)))))"

text \<open>Lines 170 to 176: \<^verbatim>\<open>done\<close> starts true; the checks run in order and the
  first one that returns false sets \<^verbatim>\<open>done\<close> to false and breaks.\<close>

fun stateChecks_range ::
  "'w DealStateCheck list \<Rightarrow> 'w Context \<Rightarrow> DealInfo \<Rightarrow> SectorNumber \<Rightarrow> 'w \<Rightarrow> (failure + bool) \<times> 'w"
where
  "stateChecks_range [] ctx di ms w = (Inr True, w)"
| "stateChecks_range (check # checks) ctx di ms w =
     (case check ctx di ms w of
        (Inl e, w') \<Rightarrow> (Inl e, w')
      | (Inr b, w') \<Rightarrow> if \<not> b then (Inr False, w') else stateChecks_range checks ctx di ms w')"

text \<open>Lines 183 to 189: \<^verbatim>\<open>minerDeal\<close> is the first deal of \<^verbatim>\<open>mds\<close> with the same
  \<^verbatim>\<open>DealID\<close>, else the zero value.\<close>

definition minerDeal :: "MinerDeal list \<Rightarrow> DealInfo \<Rightarrow> MinerDeal" where
  "minerDeal mds di =
     (case List.find (\<lambda>md. md_DealID md = DealID di) mds of
        Some md \<Rightarrow> md
      | None \<Rightarrow> \<lparr>md_ProposalCid = [], md_State = StorageDealUnknown, md_Message = [], md_DealID = 0\<rparr>)"

text \<open>The body of \<^verbatim>\<open>for deal := range todo\<close> for one key: it returns the map
  \<^verbatim>\<open>todo\<close> after it (the keys as a list without duplicates).\<close>

definition WaitDealStates_deal ::
  "'w DealHarness \<Rightarrow> 'w Context \<Rightarrow> 'w DealStateCheck list \<Rightarrow> Cid \<Rightarrow> Cid list \<Rightarrow> 'w run
     \<Rightarrow> (failure + Cid list) \<times> 'w run"
where
  "WaitDealStates_deal dh ctx stateChecks deal todo r =
     (case WaitDealStates_fetch dh ctx deal (world r) of
        (Inl e, w1) \<Rightarrow> (Inl e, r\<lparr>world := w1\<rparr>)
      | (Inr (di, mds, ms), w1) \<Rightarrow>
     (case stateChecks_range stateChecks ctx di ms w1 of
        (Inl e, w2) \<Rightarrow> (Inl e, r\<lparr>world := w2\<rparr>)
      | (Inr done, w2) \<Rightarrow>
          (Inr (if done then removeAll deal todo else todo),
           \<lparr>world = w2,
            trace = trace r @ (if done then [Log_Wait_complete di] else [])
                      @ [Logf_Deal_state (DealID di) (State di) (md_State (minerDeal mds di))]\<rparr>)))"

text \<open>One \<^verbatim>\<open>for deal := range todo\<close>: the keys are visited in the given order.
  Only the key being visited is ever deleted, so every key of the map at the start
  of the pass is visited.\<close>

fun WaitDealStates_range ::
  "'w DealHarness \<Rightarrow> 'w Context \<Rightarrow> 'w DealStateCheck list \<Rightarrow> Cid list \<Rightarrow> Cid list \<Rightarrow> 'w run
     \<Rightarrow> (failure + Cid list) \<times> 'w run"
where
  "WaitDealStates_range dh ctx stateChecks [] todo r = (Inr todo, r)"
| "WaitDealStates_range dh ctx stateChecks (deal # deals) todo r =
     (case WaitDealStates_deal dh ctx stateChecks deal todo r of
        (Inl e, r') \<Rightarrow> (Inl e, r')
      | (Inr todo', r') \<Rightarrow> WaitDealStates_range dh ctx stateChecks deals todo' r')"

text \<open>\<^verbatim>\<open>time.Sleep(time.Second / 2)\<close>\<close>

definition sleep_half_second :: "'w DealHarness \<Rightarrow> 'w run \<Rightarrow> 'w run" where
  "sleep_half_second dh r =
     \<lparr>world = time_Sleep dh (Second div 2) (world r), trace = trace r @ [Sleep (Second div 2)]\<rparr>"

text \<open>\<^verbatim>\<open>for len(todo) > 0\<close>: pass \<open>n\<close>, then the sleep, then the test again. The loop
  has no bound, so the wait is a partial function: \<open>None\<close> is a wait that never
  returns.\<close>

partial_function (option) WaitDealStates_loop ::
  "'w DealHarness \<Rightarrow> 'w Context \<Rightarrow> 'w DealStateCheck list \<Rightarrow> nat \<Rightarrow> Cid list \<Rightarrow> 'w run
     \<Rightarrow> ((failure + unit) \<times> 'w run) option"
where
  "WaitDealStates_loop dh ctx stateChecks n todo r =
     (if \<not> length todo > 0 then Some (Inr (), r)
      else (case WaitDealStates_range dh ctx stateChecks (range_order dh n todo) todo r of
              (Inl e, r') \<Rightarrow> Some (Inl e, r')
            | (Inr todo', r') \<Rightarrow>
                WaitDealStates_loop dh ctx stateChecks (Suc n) todo' (sleep_half_second dh r')))"

declare WaitDealStates_loop.simps [code]

text \<open>\<^verbatim>\<open>WaitDealStates\<close>: \<^verbatim>\<open>todo\<close> gets one key per distinct deal.\<close>

definition WaitDealStates ::
  "'w DealHarness \<Rightarrow> 'w Context \<Rightarrow> Cid list \<Rightarrow> 'w DealStateCheck list \<Rightarrow> 'w
     \<Rightarrow> ((failure + unit) \<times> 'w run) option"
where
  "WaitDealStates dh ctx deals stateChecks w =
     WaitDealStates_loop dh ctx stateChecks 0 (remdups deals) \<lparr>world = w, trace = []\<rparr>"

subsection \<open>The wait on the update channel\<close>

text \<open>\<^verbatim>\<open>WaitDealPublished\<close> loops over a \<^verbatim>\<open>select\<close> with two cases: a receive from
  \<^verbatim>\<open>ctx.Done()\<close> and a receive from the channel \<^verbatim>\<open>updates\<close>.\<close>

datatype select_case =
    ctx_Done
  | updates MinerDeal

text \<open>A moment at which the goroutine stands at the \<^verbatim>\<open>select\<close>: the world then (which
  says whether \<^verbatim>\<open>ctx.Done()\<close> is closed), the update that is ready to be received from
  \<^verbatim>\<open>updates\<close>, if any, and the case the Go runtime picks when both cases are ready (the
  language leaves the choice to a uniform pseudo-random selection).\<close>

datatype pick =
    pick_ctx_Done
  | pick_updates

record 'w moment =
  now :: 'w
  receivable :: "MinerDeal option"
  picked :: pick

text \<open>The \<^verbatim>\<open>select\<close> statement: with no case ready it blocks (\<open>None\<close>: nothing is taken
  at this moment); with one case ready it takes it; with both ready it takes the one the
  runtime picks.\<close>

definition select_takes :: "'w Context \<Rightarrow> 'w moment \<Rightarrow> select_case option" where
  "select_takes ctx m =
     (if Done ctx (now m) then
        (case receivable m of
           None \<Rightarrow> Some ctx_Done
         | Some di \<Rightarrow> if picked m = pick_ctx_Done then Some ctx_Done else Some (updates di))
      else
        (case receivable m of
           None \<Rightarrow> None
         | Some di \<Rightarrow> Some (updates di)))"

text \<open>The \<^verbatim>\<open>for\<close> loop around the \<^verbatim>\<open>select\<close>, over the moments at which the goroutine
  stands at it. When the moments end with the wait still in its loop, the wait stays
  blocked: the result is \<open>None\<close>.\<close>

fun WaitDealPublished_loop ::
  "'w Context \<Rightarrow> Cid \<Rightarrow> 'w moment list \<Rightarrow> event list \<Rightarrow> ((failure + unit) \<times> event list) option"
where
  "WaitDealPublished_loop ctx deal [] tr = None"
| "WaitDealPublished_loop ctx deal (m # moments) tr =
     (case select_takes ctx m of
        None \<Rightarrow> WaitDealPublished_loop ctx deal moments tr
      | Some ctx_Done \<Rightarrow> Some (Inl ContextTimeout, tr)
      | Some (updates di) \<Rightarrow>
          (if deal = md_ProposalCid di then
             (case md_State di of
                StorageDealProposalRejected \<Rightarrow> Some (Inl DealRejected, tr)
              | StorageDealFailing \<Rightarrow> Some (Inl DealFailed, tr)
              | StorageDealError \<Rightarrow> Some (Inl (DealErrored (md_Message di)), tr)
              | StorageDealFinalizing \<Rightarrow> Some (Inr (), tr @ [Log_COMPLETE di])
              | StorageDealAwaitingPreCommit \<Rightarrow> Some (Inr (), tr @ [Log_COMPLETE di])
              | StorageDealSealing \<Rightarrow> Some (Inr (), tr @ [Log_COMPLETE di])
              | StorageDealActive \<Rightarrow> Some (Inr (), tr @ [Log_COMPLETE di])
              | _ \<Rightarrow> WaitDealPublished_loop ctx deal moments (tr @ [Log_Deal_state (md_State di)]))
           else WaitDealPublished_loop ctx deal moments tr))"

text \<open>\<^verbatim>\<open>WaitDealPublished\<close>: \<^verbatim>\<open>MarketGetDealUpdates\<close> returns an error, or the
  channel \<^verbatim>\<open>updates\<close>, given by what is ready on it at each moment of the loop. The
  deferred \<^verbatim>\<open>cancel\<close> of the sub-context runs when the wait is over and changes
  nothing of its result.\<close>

definition WaitDealPublished ::
  "'w Context \<Rightarrow> (string + 'w moment list) \<Rightarrow> Cid \<Rightarrow> ((failure + unit) \<times> event list) option"
where
  "WaitDealPublished ctx MarketGetDealUpdates deal =
     (case MarketGetDealUpdates of
        Inl err \<Rightarrow> Some (Inl (NoErrorFailed err), [])
      | Inr moments \<Rightarrow> WaitDealPublished_loop ctx deal moments [])"

text \<open>The cases that the \<^verbatim>\<open>select\<close> takes over a sequence of moments.\<close>

definition cases_taken :: "'w Context \<Rightarrow> 'w moment list \<Rightarrow> select_case list" where
  "cases_taken ctx moments = List.map_filter (select_takes ctx) moments"

subsection \<open>The classification of updates in the specification's words\<close>

text \<open>The specification classifies the state of an update into fatal (rejected,
  failing, errored with the message), success-terminal (one of Finalizing,
  AwaitingPreCommit, Sealing, Active) and intermediate. These definitions follow the
  specification; the theorem on \<open>WaitDealPublished\<close> compares the code with them.\<close>

datatype classification =
    FatalRejected
  | FatalFailing
  | FatalErrored string
  | SuccessTerminal
  | Intermediate

definition classify :: "MinerDeal \<Rightarrow> classification" where
  "classify di =
     (if md_State di = StorageDealProposalRejected then FatalRejected
      else if md_State di = StorageDealFailing then FatalFailing
      else if md_State di = StorageDealError then FatalErrored (md_Message di)
      else if md_State di \<in> {StorageDealFinalizing, StorageDealAwaitingPreCommit,
                              StorageDealSealing, StorageDealActive} then SuccessTerminal
      else Intermediate)"

text \<open>A case decides the wait when it is the cancellation signal, or an update of the
  target deal whose classification is not intermediate.\<close>

definition decides :: "Cid \<Rightarrow> select_case \<Rightarrow> bool" where
  "decides deal c =
     (case c of ctx_Done \<Rightarrow> True
      | updates di \<Rightarrow> md_ProposalCid di = deal \<and> classify di \<noteq> Intermediate)"

text \<open>What the deciding case makes of the wait: Timeout, the fatal classification, or a
  normal return.\<close>

definition verdict :: "select_case \<Rightarrow> failure + unit" where
  "verdict c =
     (case c of ctx_Done \<Rightarrow> Inl ContextTimeout
      | updates di \<Rightarrow>
          (case classify di of
             FatalRejected \<Rightarrow> Inl DealRejected
           | FatalFailing \<Rightarrow> Inl DealFailed
           | FatalErrored m \<Rightarrow> Inl (DealErrored m)
           | _ \<Rightarrow> Inr ()))"

text \<open>The lines a sequence of cases leaves in the log: the state of every update of the
  target deal that does not decide the wait, and \<^verbatim>\<open>COMPLETE\<close> for one that ends it
  normally.\<close>

fun recorded :: "Cid \<Rightarrow> select_case list \<Rightarrow> event list" where
  "recorded deal [] = []"
| "recorded deal (ctx_Done # cases) = recorded deal cases"
| "recorded deal (updates di # cases) =
     (if md_ProposalCid di = deal then
        (if classify di = Intermediate then [Log_Deal_state (md_State di)]
         else if classify di = SuccessTerminal then [Log_COMPLETE di] else [])
      else []) @ recorded deal cases"

subsection \<open>Fixtures\<close>

text \<open>Collaborators for the examples: the world is the number of sleeps made so far,
  that is the index of the current pass. \<open>deal_at deal i\<close> is what the client reports
  for a deal during pass \<open>i\<close> and \<open>sectors_at i\<close> the miner's sectors with their status;
  the miner lists no incomplete deals. A sleep moves to the next pass. The keys of
  \<^verbatim>\<open>todo\<close> are visited in list order in even passes and in reverse in odd ones.\<close>

definition fixture ::
  "(Cid \<Rightarrow> nat \<Rightarrow> DealInfo) \<Rightarrow> (nat \<Rightarrow> (SectorNumber \<times> SectorInfo) list) \<Rightarrow> nat DealHarness"
where
  "fixture deal_at sectors_at =
     \<lparr>ClientGetDealInfo = (\<lambda>ctx deal i. (Inr (deal_at deal i), i)),
      MarketListIncompleteDeals = (\<lambda>ctx i. (Inr [], i)),
      SectorsList = (\<lambda>ctx i. (Inr (map fst (sectors_at i)), i)),
      SectorsStatus = (\<lambda>ctx s showOnChainInfo i.
         (case map_of (sectors_at i) s of
            Some si \<Rightarrow> (Inr si, i)
          | None \<Rightarrow> (Inl ''sector not found'', i))),
      time_Sleep = (\<lambda>d i. Suc i),
      range_order = (\<lambda>n todo. if even n then todo else rev todo)\<rparr>"

text \<open>A context whose deadline passes during the \<open>n\<close>-th sleep, and one that is never
  done.\<close>

definition expiring :: "nat \<Rightarrow> nat Context" where
  "expiring n = \<lparr>Done = (\<lambda>i. n \<le> i)\<rparr>"

definition background :: "nat Context" where
  "background = \<lparr>Done = (\<lambda>i. False)\<rparr>"

text \<open>A deal that is in the given state with the given message in every pass, and a deal
  that goes through a list of states, one per pass, and stays in the last.\<close>

definition deal_in :: "DealID \<Rightarrow> StorageDealStatus \<Rightarrow> string \<Rightarrow> Cid \<Rightarrow> DealInfo" where
  "deal_in n s m deal = \<lparr>ProposalCid = deal, State = s, Message = m, DealID = n\<rparr>"

definition emitting :: "StorageDealStatus list \<Rightarrow> nat \<Rightarrow> StorageDealStatus" where
  "emitting states i = (if i < length states then states ! i else last states)"

text \<open>The deals and sectors of the examples. In \<open>two_deals\<close> the deal \<open>D1\<close> is in
  AwaitingPreCommit, Sealing and Active in the passes 0, 1 and 2, and every other deal in
  Sealing and Active in the passes 0 and 1. In \<open>failing_deals\<close> the deal \<open>D2\<close> has failed
  with a message and every other deal is being sealed.\<close>

definition two_deals :: "Cid \<Rightarrow> nat \<Rightarrow> DealInfo" where
  "two_deals deal i =
     (if deal = ''D1''
      then deal_in 1 (emitting [StorageDealAwaitingPreCommit, StorageDealSealing, StorageDealActive] i) [] deal
      else deal_in 2 (emitting [StorageDealSealing, StorageDealActive] i) [] deal)"

definition failing_deals :: "Cid \<Rightarrow> nat \<Rightarrow> DealInfo" where
  "failing_deals deal i =
     (if deal = ''D2'' then deal_in 2 StorageDealError ''insufficient funds'' deal
      else deal_in 1 StorageDealSealing [] deal)"

text \<open>Deals that stay as they are: all active, and all active but \<open>D2\<close>, which stays in
  Sealing.\<close>

definition active_deals :: "Cid \<Rightarrow> nat \<Rightarrow> DealInfo" where
  "active_deals deal i = deal_in 7 StorageDealActive [] deal"

definition stalled_deals :: "Cid \<Rightarrow> nat \<Rightarrow> DealInfo" where
  "stalled_deals deal i =
     (if deal = ''D2'' then deal_in 2 StorageDealSealing [] deal
      else deal_in 1 StorageDealActive [] deal)"

definition no_sectors :: "nat \<Rightarrow> (SectorNumber \<times> SectorInfo) list" where
  "no_sectors i = []"

definition three_sectors :: "nat \<Rightarrow> (SectorNumber \<times> SectorInfo) list" where
  "three_sectors i =
     [(1, \<lparr>si_State = ''Packing'', Deals = [5]\<rparr>),
      (2, \<lparr>si_State = ''Proving'', Deals = [7, 8]\<rparr>),
      (3, \<lparr>si_State = ''Proving'', Deals = [7]\<rparr>)]"

definition sector_zero :: "nat \<Rightarrow> (SectorNumber \<times> SectorInfo) list" where
  "sector_zero i =
     [(1, \<lparr>si_State = ''Proving'', Deals = [8]\<rparr>),
      (0, \<lparr>si_State = ''Proving'', Deals = [7]\<rparr>)]"

text \<open>Moments of the examples, the world being a number: an update of a deal arrives
  and the runtime picks the receive from \<^verbatim>\<open>updates\<close>; nothing arrives.\<close>

definition arrives :: "nat \<Rightarrow> Cid \<Rightarrow> StorageDealStatus \<Rightarrow> string \<Rightarrow> nat moment" where
  "arrives i deal s m =
     \<lparr>now = i,
      receivable = Some \<lparr>md_ProposalCid = deal, md_State = s, md_Message = m, md_DealID = 1\<rparr>,
      picked = pick_updates\<rparr>"

definition nothing_arrives :: "nat \<Rightarrow> nat moment" where
  "nothing_arrives i = \<lparr>now = i, receivable = None, picked = pick_ctx_Done\<rparr>"

section \<open>Auxiliary facts\<close>

subsection \<open>The loops over states\<close>

lemma DealState_range_iff: "DealState_range s expect \<longleftrightarrow> s \<in> set expect"
  by (induction expect) auto

lemma DealOn_range_eq:
  "DealOn_range cb s states w = (if s \<in> set states then cb w else (Inr (), w))"
  by (induction states) auto

subsection \<open>The classification\<close>

lemma decides_simps:
  "decides deal ctx_Done = True"
  "decides deal (updates di) = (md_ProposalCid di = deal \<and> classify di \<noteq> Intermediate)"
  by (simp_all add: decides_def)

lemma verdict_simps:
  "verdict ctx_Done = Inl ContextTimeout"
  "verdict (updates di) =
     (case classify di of
        FatalRejected \<Rightarrow> Inl DealRejected
      | FatalFailing \<Rightarrow> Inl DealFailed
      | FatalErrored m \<Rightarrow> Inl (DealErrored m)
      | _ \<Rightarrow> Inr ())"
  by (simp_all add: verdict_def)

lemma cases_taken_simps:
  "cases_taken ctx [] = []"
  "cases_taken ctx (m # moments) =
     (case select_takes ctx m of
        None \<Rightarrow> cases_taken ctx moments
      | Some c \<Rightarrow> c # cases_taken ctx moments)"
  by (simp_all add: cases_taken_def List.map_filter_simps split: option.splits)

lemma WaitDealPublished_loop_decides:
  "WaitDealPublished_loop ctx deal moments tr =
     (case dropWhile (\<lambda>c. \<not> decides deal c) (cases_taken ctx moments) of
        [] \<Rightarrow> None
      | c # rest \<Rightarrow>
          Some (verdict c,
                tr @ recorded deal (takeWhile (\<lambda>c. \<not> decides deal c) (cases_taken ctx moments) @ [c])))"
proof (induction moments arbitrary: tr)
  case Nil
  then show ?case by (simp add: cases_taken_simps)
next
  case (Cons m moments)
  show ?case
  proof (cases "select_takes ctx m")
    case None
    then show ?thesis using Cons [of tr] by (simp add: cases_taken_simps cong: list.case_cong)
  next
    case (Some c)
    show ?thesis
    proof (cases c)
      case ctx_Done
      then show ?thesis using Some
        by (simp add: cases_taken_simps decides_simps verdict_simps)
    next
      case (updates di)
      show ?thesis
      proof (cases "deal = md_ProposalCid di")
        case False
        then show ?thesis using Some updates Cons [of tr]
          by (auto simp add: cases_taken_simps decides_simps cong: list.case_cong)
      next
        case True
        then show ?thesis using Some updates Cons [of "tr @ [Log_Deal_state (md_State di)]"]
          by (cases "md_State di")
             (simp_all add: cases_taken_simps decides_simps verdict_simps classify_def
                cong: list.case_cong)
      qed
    qed
  qed
qed

subsection \<open>The sector of a deal\<close>

lemma sloop_first:
  assumes "\<forall>s\<in>set sl. \<forall>w. \<exists>si w'.
      SectorsStatus dh ctx s False w = (Inr si, w') \<and> (dealID \<in> set (Deals si) \<longleftrightarrow> holds s)"
  shows "\<exists>w'. sloop dh ctx dealID sl w =
           (Inr (case List.find holds sl of Some s \<Rightarrow> s | None \<Rightarrow> 0), w')"
  using assms
proof (induction sl arbitrary: w)
  case Nil
  then show ?case by simp
next
  case (Cons s sl)
  from Cons.prems obtain si w1 where q: "SectorsStatus dh ctx s False w = (Inr si, w1)"
    and h: "dealID \<in> set (Deals si) \<longleftrightarrow> holds s"
    by (meson list.set_intros(1))
  obtain w2 where rest:
    "sloop dh ctx dealID sl w1 = (Inr (case List.find holds sl of Some s \<Rightarrow> s | None \<Rightarrow> 0), w2)"
    using Cons.IH [of w1] Cons.prems by auto
  show ?case
    using q h rest by (simp add: require_NoError_def)
qed

subsection \<open>One pass and the loop of passes\<close>

lemma loop_empty: "WaitDealStates_loop dh ctx cs n [] r = Some (Inr (), r)"
  by (subst WaitDealStates_loop.simps) simp

lemma loop_pass:
  assumes "todo \<noteq> []"
    and "WaitDealStates_range dh ctx cs (range_order dh n todo) todo r = (Inr todo', r')"
  shows "WaitDealStates_loop dh ctx cs n todo r =
           WaitDealStates_loop dh ctx cs (Suc n) todo' (sleep_half_second dh r')"
  using assms by (subst WaitDealStates_loop.simps) simp

lemma loop_abort:
  assumes "todo \<noteq> []"
    and "WaitDealStates_range dh ctx cs (range_order dh n todo) todo r = (Inl e, r')"
  shows "WaitDealStates_loop dh ctx cs n todo r = Some (Inl e, r')"
  using assms by (subst WaitDealStates_loop.simps) simp

lemma range_append:
  "WaitDealStates_range dh ctx cs (ds1 @ ds2) todo r =
     (case WaitDealStates_range dh ctx cs ds1 todo r of
        (Inl e, r') \<Rightarrow> (Inl e, r')
      | (Inr todo1, r1) \<Rightarrow> WaitDealStates_range dh ctx cs ds2 todo1 r1)"
  by (induction ds1 arbitrary: todo r) (auto split: prod.splits sum.splits)

lemma stateChecks_range_append:
  "stateChecks_range (pre @ post) ctx di ms w =
     (case stateChecks_range pre ctx di ms w of
        (Inl e, w') \<Rightarrow> (Inl e, w')
      | (Inr b, w') \<Rightarrow> if \<not> b then (Inr False, w') else stateChecks_range post ctx di ms w')"
  by (induction pre arbitrary: w) (auto split: prod.splits sum.splits)

lemma deal_done:
  assumes "WaitDealStates_fetch dh ctx deal (world r) = (Inr (di, mds, ms), w1)"
    and "stateChecks_range cs ctx di ms w1 = (Inr b, w2)"
  shows "WaitDealStates_deal dh ctx cs deal todo r =
     (Inr (if b then removeAll deal todo else todo),
      \<lparr>world = w2,
       trace = trace r @ (if b then [Log_Wait_complete di] else [])
                 @ [Logf_Deal_state (DealID di) (State di) (md_State (minerDeal mds di))]\<rparr>)"
  using assms by (simp add: WaitDealStates_deal_def)

lemma deal_abort:
  assumes "WaitDealStates_fetch dh ctx deal (world r) = (Inr (di, mds, ms), w1)"
    and "stateChecks_range cs ctx di ms w1 = (Inl e, w2)"
  shows "WaitDealStates_deal dh ctx cs deal todo r = (Inl e, r\<lparr>world := w2\<rparr>)"
  using assms by (simp add: WaitDealStates_deal_def)

lemma DealState_fatal:
  assumes "State di \<notin> set expect"
    and "State di \<in> {StorageDealProposalRejected, StorageDealFailing, StorageDealError}"
  shows "DealState expect ctx di ms w =
     (Inl (case State di of StorageDealProposalRejected \<Rightarrow> DealRejected
           | StorageDealFailing \<Rightarrow> DealFailed
           | _ \<Rightarrow> DealErrored (Message di)), w)"
  using assms by (auto simp add: DealState_def DealState_range_iff)

text \<open>A wait that returns normally has either made no pass at all or has slept last.\<close>

lemma loop_success_slept:
  assumes ret: "WaitDealStates_loop dh ctx cs n todo r = Some y"
  shows "fst y = Inr () \<longrightarrow>
     (todo = [] \<and> snd y = r) \<or> (\<exists>tr. trace (snd y) = tr @ [Sleep (Second div 2)])"
proof (rule WaitDealStates_loop.raw_induct [OF _ ret])
  fix loop :: "'a DealHarness \<Rightarrow> 'a Context \<Rightarrow> 'a DealStateCheck list \<Rightarrow> nat \<Rightarrow> Cid list \<Rightarrow> 'a run
     \<Rightarrow> ((failure + unit) \<times> 'a run) option"
  fix dh ctx cs n todo r y
  assume IH: "\<And>dh ctx cs n todo r y. loop dh ctx cs n todo r = Some y \<Longrightarrow>
      fst y = Inr () \<longrightarrow>
       (todo = [] \<and> snd y = r) \<or> (\<exists>tr. trace (snd y) = tr @ [Sleep (Second div 2)])"
  assume eq: "(if \<not> 0 < length todo then Some (Inr (), r)
      else case WaitDealStates_range dh ctx cs (range_order dh n todo) todo r of
           (Inl e, r') \<Rightarrow> Some (Inl e, r')
         | (Inr todo', r') \<Rightarrow> loop dh ctx cs (Suc n) todo' (sleep_half_second dh r')) = Some y"
  show "fst y = Inr () \<longrightarrow>
     (todo = [] \<and> snd y = r) \<or> (\<exists>tr. trace (snd y) = tr @ [Sleep (Second div 2)])"
  proof (cases "todo = []")
    case True
    then show ?thesis using eq by auto
  next
    case False
    obtain res r' where p: "WaitDealStates_range dh ctx cs (range_order dh n todo) todo r = (res, r')"
      by (cases "WaitDealStates_range dh ctx cs (range_order dh n todo) todo r")
    show ?thesis
    proof (cases res)
      case (Inl e)
      then show ?thesis using eq False p by auto
    next
      case (Inr todo')
      then have "loop dh ctx cs (Suc n) todo' (sleep_half_second dh r') = Some y"
        using eq False p by simp
      from IH [OF this]
      show ?thesis by (auto simp add: sleep_half_second_def)
    qed
  qed
qed

text \<open>A wait never returns when every pass completes and leaves a key in the map.\<close>

lemma loop_diverges:
  assumes step: "\<And>n todo r. J todo r \<Longrightarrow> todo \<noteq> [] \<and>
      (\<exists>todo' r'. WaitDealStates_range dh ctx cs (range_order dh n todo) todo r = (Inr todo', r')
          \<and> J todo' (sleep_half_second dh r'))"
    and "J todo r"
  shows "WaitDealStates_loop dh ctx cs n todo r = None"
proof (cases "WaitDealStates_loop dh ctx cs n todo r")
  case None
  then show ?thesis .
next
  case (Some y)
  have "dh' = dh \<and> ctx' = ctx \<and> cs' = cs \<and> J todo r \<longrightarrow> False"
    if ret: "WaitDealStates_loop dh' ctx' cs' n todo r = Some y" for dh' ctx' cs' n todo r y
  proof (rule WaitDealStates_loop.raw_induct [OF _ ret])
    fix loop :: "'a DealHarness \<Rightarrow> 'a Context \<Rightarrow> 'a DealStateCheck list \<Rightarrow> nat \<Rightarrow> Cid list \<Rightarrow> 'a run
       \<Rightarrow> ((failure + unit) \<times> 'a run) option"
    fix dh' ctx' cs' n todo r y
    assume IH: "\<And>dh' ctx' cs' n todo r y. loop dh' ctx' cs' n todo r = Some y \<Longrightarrow>
        dh' = dh \<and> ctx' = ctx \<and> cs' = cs \<and> J todo r \<longrightarrow> False"
    assume eq: "(if \<not> 0 < length todo then Some (Inr (), r)
        else case WaitDealStates_range dh' ctx' cs' (range_order dh' n todo) todo r of
             (Inl e, r') \<Rightarrow> Some (Inl e, r')
           | (Inr todo', r') \<Rightarrow> loop dh' ctx' cs' (Suc n) todo' (sleep_half_second dh' r')) = Some y"
    show "dh' = dh \<and> ctx' = ctx \<and> cs' = cs \<and> J todo r \<longrightarrow> False"
    proof
      assume a: "dh' = dh \<and> ctx' = ctx \<and> cs' = cs \<and> J todo r"
      from step [of todo r n] a obtain todo' r' where ne: "todo \<noteq> []"
        and p: "WaitDealStates_range dh ctx cs (range_order dh n todo) todo r = (Inr todo', r')"
        and j: "J todo' (sleep_half_second dh r')" by blast
      have "loop dh ctx cs (Suc n) todo' (sleep_half_second dh r') = Some y"
        using eq a ne p by simp
      then show False using IH j by blast
    qed
  qed
  then show ?thesis using Some assms(2) by blast
qed

subsection \<open>Passes over pending deals\<close>

lemma range_filter:
  assumes ev: "\<And>w deal. I w \<Longrightarrow> deal \<in> P \<Longrightarrow>
      \<exists>di mds ms w1 w2. WaitDealStates_fetch dh ctx deal w = (Inr (di, mds, ms), w1)
         \<and> stateChecks_range cs ctx di ms w1 = (Inr (ok deal), w2) \<and> I w2"
    and "set ds \<subseteq> P" and "I (world r)"
  shows "\<exists>r'. WaitDealStates_range dh ctx cs ds todo r
             = (Inr (filter (\<lambda>d. \<not> (d \<in> set ds \<and> ok d)) todo), r')
          \<and> I (world r') \<and> count_list (trace r') (Sleep x) = count_list (trace r) (Sleep x)"
  using assms(2,3)
proof (induction ds arbitrary: todo r)
  case Nil
  then show ?case by simp
next
  case (Cons deal ds)
  from ev [of "world r" deal] Cons.prems obtain di mds ms w1 w2
    where f: "WaitDealStates_fetch dh ctx deal (world r) = (Inr (di, mds, ms), w1)"
      and c: "stateChecks_range cs ctx di ms w1 = (Inr (ok deal), w2)" and i: "I w2"
    by auto
  let ?r1 = "\<lparr>world = w2,
       trace = trace r @ (if ok deal then [Log_Wait_complete di] else [])
                 @ [Logf_Deal_state (DealID di) (State di) (md_State (minerDeal mds di))]\<rparr>"
  let ?todo1 = "if ok deal then removeAll deal todo else todo"
  have d: "WaitDealStates_deal dh ctx cs deal todo r = (Inr ?todo1, ?r1)"
    by (rule deal_done [OF f c])
  from Cons.IH [of ?r1 ?todo1] Cons.prems i obtain r' where
    rest: "WaitDealStates_range dh ctx cs ds ?todo1 ?r1
             = (Inr (filter (\<lambda>d. \<not> (d \<in> set ds \<and> ok d)) ?todo1), r')"
    and i': "I (world r')"
    and cnt: "count_list (trace r') (Sleep x) = count_list (trace ?r1) (Sleep x)"
    by auto
  have fl: "filter (\<lambda>d. \<not> (d \<in> set ds \<and> ok d)) ?todo1
          = filter (\<lambda>d. \<not> (d \<in> set (deal # ds) \<and> ok d)) todo"
    by (induction todo) auto
  have "count_list (trace ?r1) (Sleep x) = count_list (trace r) (Sleep x)"
    by simp
  then show ?case using d rest i' cnt fl by simp
qed

lemma loop_converges:
  fixes sat :: "nat \<Rightarrow> Cid \<Rightarrow> bool"
  assumes order: "\<And>n xs. set (range_order dh n xs) = set xs"
    and ev: "\<And>i w deal. I i w \<Longrightarrow> deal \<in> D \<Longrightarrow> \<forall>j<i. \<not> sat j deal \<Longrightarrow>
      \<exists>di mds ms w1 w2. WaitDealStates_fetch dh ctx deal w = (Inr (di, mds, ms), w1)
         \<and> stateChecks_range cs ctx di ms w1 = (Inr (sat i deal), w2) \<and> I i w2"
    and sl: "\<And>i w. I i w \<Longrightarrow> I (Suc i) (time_Sleep dh (Second div 2) w)"
    and reach: "\<forall>deal\<in>D. \<exists>i<K. sat i deal"
  shows "K - i = k \<Longrightarrow> i \<le> K \<Longrightarrow> set todo = {d \<in> D. \<forall>j<i. \<not> sat j d} \<Longrightarrow> I i (world r) \<Longrightarrow>
         count_list (trace r) (Sleep (Second div 2)) = i \<Longrightarrow>
     \<exists>m r'. WaitDealStates_loop dh ctx cs i todo r = Some (Inr (), r') \<and> i \<le> m \<and> m \<le> K
        \<and> count_list (trace r') (Sleep (Second div 2)) = m
        \<and> (\<forall>deal\<in>D. \<exists>j<m. sat j deal)
        \<and> (\<forall>m'. i \<le> m' \<and> m' < m \<longrightarrow> (\<exists>deal\<in>D. \<forall>j<m'. \<not> sat j deal))"
proof (induction k arbitrary: i todo r)
  case 0
  then have "i = K" by simp
  then have "set todo = {}" using reach 0 by auto
  then have "todo = []" by simp
  then show ?case using 0 \<open>i = K\<close> reach by (auto simp add: loop_empty intro!: exI [of _ K])
next
  case (Suc k)
  show ?case
  proof (cases "todo = []")
    case True
    then have "\<forall>deal\<in>D. \<exists>j<i. sat j deal" using Suc.prems(3) by auto
    then show ?thesis using True Suc.prems by (auto simp add: loop_empty intro!: exI [of _ i])
  next
    case False
    let ?P = "{d \<in> D. \<forall>j<i. \<not> sat j d}"
    have ev': "\<And>w deal. I i w \<Longrightarrow> deal \<in> ?P \<Longrightarrow>
      \<exists>di mds ms w1 w2. WaitDealStates_fetch dh ctx deal w = (Inr (di, mds, ms), w1)
         \<and> stateChecks_range cs ctx di ms w1 = (Inr (sat i deal), w2) \<and> I i w2"
      using ev by simp
    have sub: "set (range_order dh i todo) \<subseteq> ?P" using order Suc.prems(3) by simp
    from range_filter [of "I i" ?P dh ctx cs "sat i" "range_order dh i todo" r todo "Second div 2",
        OF ev' sub Suc.prems(4)]
    obtain r' where
      p: "WaitDealStates_range dh ctx cs (range_order dh i todo) todo r
             = (Inr (filter (\<lambda>d. \<not> (d \<in> set (range_order dh i todo) \<and> sat i d)) todo), r')"
      and i': "I i (world r')"
      and cnt: "count_list (trace r') (Sleep (Second div 2)) = count_list (trace r) (Sleep (Second div 2))"
      by blast
    let ?todo' = "filter (\<lambda>d. \<not> (d \<in> set (range_order dh i todo) \<and> sat i d)) todo"
    let ?r2 = "sleep_half_second dh r'"
    have step: "WaitDealStates_loop dh ctx cs i todo r = WaitDealStates_loop dh ctx cs (Suc i) ?todo' ?r2"
      by (rule loop_pass [OF False p])
    have s1: "set ?todo' = {d \<in> D. \<forall>j<Suc i. \<not> sat j d}"
      using order Suc.prems(3) by (auto simp add: less_Suc_eq)
    have s2: "I (Suc i) (world ?r2)" using sl [OF i'] by (simp add: sleep_half_second_def)
    have s3: "count_list (trace ?r2) (Sleep (Second div 2)) = Suc i"
      using cnt Suc.prems(5) by (simp add: sleep_half_second_def)
    obtain d where dD: "d \<in> D" and dn: "\<forall>j<i. \<not> sat j d"
      using False Suc.prems(3) by (cases todo) auto
    have "K - Suc i = k" "Suc i \<le> K" using Suc.prems(1) by auto
    from Suc.IH [OF this s1 s2 s3] obtain m r3 where
      res: "WaitDealStates_loop dh ctx cs (Suc i) ?todo' ?r2 = Some (Inr (), r3)"
      and m: "Suc i \<le> m" "m \<le> K" "count_list (trace r3) (Sleep (Second div 2)) = m"
      "\<forall>deal\<in>D. \<exists>j<m. sat j deal"
      "\<forall>m'. Suc i \<le> m' \<and> m' < m \<longrightarrow> (\<exists>deal\<in>D. \<forall>j<m'. \<not> sat j deal)"
      by blast
    have "\<forall>m'. i \<le> m' \<and> m' < m \<longrightarrow> (\<exists>deal\<in>D. \<forall>j<m'. \<not> sat j deal)"
    proof (intro allI impI)
      fix m' assume "i \<le> m' \<and> m' < m"
      then consider "m' = i" | "Suc i \<le> m' \<and> m' < m" by linarith
      then show "\<exists>deal\<in>D. \<forall>j<m'. \<not> sat j deal"
        using dD dn m(5) by cases auto
    qed
    then show ?thesis using step res m by (intro exI [of _ m] exI [of _ r3]) auto
  qed
qed

lemma stateChecks_range_all:
  assumes "\<forall>c\<in>set cs. \<forall>w. I w \<longrightarrow> (\<exists>w'. c ctx di ms w = (Inr (v c), w') \<and> I w')"
    and "I w"
  shows "\<exists>w'. stateChecks_range cs ctx di ms w = (Inr (\<forall>c\<in>set cs. v c), w') \<and> I w'"
  using assms
proof (induction cs arbitrary: w)
  case Nil
  then show ?case by simp
next
  case (Cons c cs)
  from Cons.prems obtain w1 where c: "c ctx di ms w = (Inr (v c), w1)" and i: "I w1"
    by auto
  from Cons.IH [of w1] Cons.prems i obtain w2 where
    "stateChecks_range cs ctx di ms w1 = (Inr (\<forall>c\<in>set cs. v c), w2)" "I w2" by auto
  then show ?case using c i by auto
qed

lemma range_keeps:
  assumes ev: "\<And>w deal. I w \<Longrightarrow>
      \<exists>di mds ms w1 b w2. WaitDealStates_fetch dh ctx deal w = (Inr (di, mds, ms), w1)
         \<and> stateChecks_range cs ctx di ms w1 = (Inr b, w2) \<and> I w2 \<and> (deal = d0 \<longrightarrow> \<not> b)"
    and "d0 \<in> set todo" and "I (world r)"
  shows "\<exists>todo' r'. WaitDealStates_range dh ctx cs ds todo r = (Inr todo', r')
          \<and> d0 \<in> set todo' \<and> I (world r')"
  using assms(2,3)
proof (induction ds arbitrary: todo r)
  case Nil
  then show ?case by simp
next
  case (Cons deal ds)
  from ev [OF Cons.prems(2), of deal] obtain di mds ms w1 b w2
    where f: "WaitDealStates_fetch dh ctx deal (world r) = (Inr (di, mds, ms), w1)"
      and c: "stateChecks_range cs ctx di ms w1 = (Inr b, w2)" and i: "I w2"
      and s: "deal = d0 \<longrightarrow> \<not> b"
    by blast
  let ?r1 = "\<lparr>world = w2,
       trace = trace r @ (if b then [Log_Wait_complete di] else [])
                 @ [Logf_Deal_state (DealID di) (State di) (md_State (minerDeal mds di))]\<rparr>"
  let ?todo1 = "if b then removeAll deal todo else todo"
  have d: "WaitDealStates_deal dh ctx cs deal todo r = (Inr ?todo1, ?r1)"
    by (rule deal_done [OF f c])
  have k: "d0 \<in> set ?todo1" using Cons.prems(1) s by auto
  have "I (world ?r1)" using i by simp
  from Cons.IH [OF k this] obtain todo' r' where
    "WaitDealStates_range dh ctx cs ds ?todo1 ?r1 = (Inr todo', r')" "d0 \<in> set todo'" "I (world r')"
    by blast
  then show ?case using d by auto
qed

subsection \<open>Evaluation\<close>

text \<open>The definitions unfolded to run a wait on a fixture.\<close>

lemmas eval_simps = WaitDealStates_def WaitDealStates_loop.simps WaitDealStates_deal_def
  WaitDealStates_fetch_def require_NoError_def fixture_def DealState_def DealSectorState_def DealOn_def
  sleep_half_second_def minerDeal_def deal_in_def emitting_def Second_def
  two_deals_def failing_deals_def no_sectors_def three_sectors_def sector_zero_def
  background_def expiring_def active_deals_def stalled_deals_def

section \<open>The claims\<close>

text \<open>
  Claim C1, as amended. Take pass \<open>n\<close> of \<^verbatim>\<open>WaitDealStates\<close> over a non-empty map
  \<open>todo\<close>, in which the keys \<open>ds1\<close> are visited without ending the test and \<open>deal\<close>
  comes next, and let the queries for \<open>deal\<close> succeed. When the snapshot \<open>di\<close> fetched
  for \<open>deal\<close> is in one of the states ProposalRejected, Failing, Error, and the list of
  checks holds a \<open>DealState expect\<close> that does not expect this state, and every check
  before it in the list returns true on this snapshot, then the whole wait ends in this
  pass, at this key, with the failure of that state (rejected, failed, errored with the
  message of the deal), whatever the other keys of the map and the checks after
  \<open>DealState\<close> are.
\<close>

theorem fatal_state_aborts_wait:
  assumes "todo \<noteq> []"
    and "range_order dh n todo = ds1 @ deal # ds2"
    and "WaitDealStates_range dh ctx stateChecks ds1 todo r = (Inr todo1, r1)"
    and "WaitDealStates_fetch dh ctx deal (world r1) = (Inr (di, mds, ms), w1)"
    and "stateChecks = pre @ DealState expect # post"
    and "stateChecks_range pre ctx di ms w1 = (Inr True, w2)"
    and "State di \<notin> set expect"
    and "State di \<in> {StorageDealProposalRejected, StorageDealFailing, StorageDealError}"
  shows "WaitDealStates_loop dh ctx stateChecks n todo r =
     Some (Inl (case State di of StorageDealProposalRejected \<Rightarrow> DealRejected
                | StorageDealFailing \<Rightarrow> DealFailed
                | _ \<Rightarrow> DealErrored (Message di)), r1\<lparr>world := w2\<rparr>)"
proof -
  let ?e = "case State di of StorageDealProposalRejected \<Rightarrow> DealRejected
                | StorageDealFailing \<Rightarrow> DealFailed
                | _ \<Rightarrow> DealErrored (Message di)"
  have "stateChecks_range stateChecks ctx di ms w1 = (Inl ?e, w2)"
    using assms(5,6) DealState_fatal [OF assms(7,8), of ctx ms w2]
    by (simp add: stateChecks_range_append)
  then have "WaitDealStates_deal dh ctx stateChecks deal todo1 r1 = (Inl ?e, r1\<lparr>world := w2\<rparr>)"
    using assms(4) by (rule deal_abort [rotated])
  then have "WaitDealStates_range dh ctx stateChecks (ds1 @ deal # ds2) todo r = (Inl ?e, r1\<lparr>world := w2\<rparr>)"
    using assms(3) by (simp add: range_append)
  then show ?thesis
    using assms(1,2) by (simp add: loop_abort)
qed

text \<open>The second scenario of the specification: \<open>D2\<close> reports
  \<^verbatim>\<open>Error("insufficient funds")\<close> in the first pass, while \<open>D1\<close> is being sealed; the
  check before \<open>DealState\<close> is a \<open>DealOn\<close>.\<close>

theorem fatal_state_aborts_wait_witness:
  "WaitDealStates_range (fixture failing_deals no_sectors) background
      [DealOn (\<lambda>i. (Inr (), i)) [StorageDealSealing], DealState [StorageDealActive]]
      [''D1''] [''D1'', ''D2''] \<lparr>world = 0, trace = []\<rparr>
    = (Inr [''D1'', ''D2''],
       \<lparr>world = 0, trace = [Logf_Deal_state 1 StorageDealSealing StorageDealUnknown]\<rparr>) \<and>
   WaitDealStates_fetch (fixture failing_deals no_sectors) background ''D2'' 0
    = (Inr (\<lparr>ProposalCid = ''D2'', State = StorageDealError,
              Message = ''insufficient funds'', DealID = 2\<rparr>, [], 0), 0) \<and>
   WaitDealStates_loop (fixture failing_deals no_sectors) background
      [DealOn (\<lambda>i. (Inr (), i)) [StorageDealSealing], DealState [StorageDealActive]]
      0 [''D1'', ''D2''] \<lparr>world = 0, trace = []\<rparr>
    = Some (Inl (DealErrored ''insufficient funds''),
            \<lparr>world = 0, trace = [Logf_Deal_state 1 StorageDealSealing StorageDealUnknown]\<rparr>)"
proof -
  let ?dh = "fixture failing_deals no_sectors"
  let ?cs = "[DealOn (\<lambda>i. (Inr (), i)) [StorageDealSealing], DealState [StorageDealActive]]
               :: nat DealStateCheck list"
  let ?r1 = "\<lparr>world = 0 :: nat, trace = [Logf_Deal_state 1 StorageDealSealing StorageDealUnknown]\<rparr>"
  let ?di = "\<lparr>ProposalCid = ''D2'', State = StorageDealError,
              Message = ''insufficient funds'', DealID = 2\<rparr>"
  have h1: "[''D1'', ''D2''] \<noteq> ([] :: Cid list)" by simp
  have h2: "range_order ?dh 0 [''D1'', ''D2''] = [''D1''] @ ''D2'' # []"
    by (simp add: fixture_def)
  have h3: "WaitDealStates_range ?dh background ?cs [''D1''] [''D1'', ''D2''] \<lparr>world = 0, trace = []\<rparr>
      = (Inr [''D1'', ''D2''], ?r1)"
    by (simp add: eval_simps)
  have h4: "WaitDealStates_fetch ?dh background ''D2'' (world ?r1) = (Inr (?di, [], 0), 0)"
    by (simp add: eval_simps)
  have h5: "?cs = [DealOn (\<lambda>i. (Inr (), i)) [StorageDealSealing]] @ DealState [StorageDealActive] # []"
    by simp
  have h6: "stateChecks_range [DealOn (\<lambda>i. (Inr (), i)) [StorageDealSealing]] background ?di 0 0 = (Inr True, 0)"
    by (simp add: eval_simps)
  have h7: "State ?di \<notin> set [StorageDealActive]" by simp
  have h8: "State ?di \<in> {StorageDealProposalRejected, StorageDealFailing, StorageDealError}" by simp
  from fatal_state_aborts_wait [OF h1 h2 h3 h4 h5 h6 h7 h8] h3 h4
  show ?thesis by simp
qed

text \<open>The claim as stated fails: with a \<open>DealSectorState\<close> check before the
  \<open>DealState\<close> check and no sector holding the deal, the first check returns false and
  the loop over the checks breaks before \<open>DealState\<close> runs. The deal is in state Error in
  every pass and the wait never ends.\<close>

theorem fatal_state_unseen_counterexample:
  "fst (WaitDealStates_fetch (fixture failing_deals no_sectors) background ''D2'' 0)
     = Inr (\<lparr>ProposalCid = ''D2'', State = StorageDealError,
              Message = ''insufficient funds'', DealID = 2\<rparr>, [], 0) \<and>
   WaitDealStates (fixture failing_deals no_sectors) background [''D2'']
     [DealSectorState (fixture failing_deals no_sectors) ''Proving'', DealState [StorageDealActive]] 0
     = None"
proof -
  let ?dh = "fixture failing_deals no_sectors"
  let ?cs = "[DealSectorState ?dh ''Proving'', DealState [StorageDealActive]]"
  define J where "J todo r = (todo = [''D2''])" for todo :: "Cid list" and r :: "nat run"
  have step: "todo \<noteq> [] \<and>
      (\<exists>todo' r'. WaitDealStates_range ?dh background ?cs (range_order ?dh n todo) todo r = (Inr todo', r')
          \<and> J todo' (sleep_half_second ?dh r'))" if "J todo r" for n todo r
    using that by (simp add: J_def eval_simps)
  have "J [''D2''] \<lparr>world = 0, trace = []\<rparr>" by (simp add: J_def)
  from loop_diverges [of J ?dh background ?cs, OF step this]
  have "WaitDealStates ?dh background [''D2''] ?cs 0 = None"
    by (simp add: WaitDealStates_def)
  moreover have "fst (WaitDealStates_fetch ?dh background ''D2'' 0)
     = Inr (\<lparr>ProposalCid = ''D2'', State = StorageDealError,
              Message = ''insufficient funds'', DealID = 2\<rparr>, [], 0)"
    by (simp add: eval_simps)
  ultimately show ?thesis by simp
qed

text \<open>
  Claim C2. Let \<open>I i\<close> hold of the worlds of pass \<open>i\<close> and let \<open>holds i deal c\<close> be what
  the check \<open>c\<close> returns for \<open>deal\<close> in pass \<open>i\<close>: for a deal still in the map the
  queries succeed and every supplied check returns \<open>holds i deal c\<close> without ending the
  test, and a sleep leads from pass \<open>i\<close> to pass \<open>i + 1\<close>. If every deal has a pass before
  \<open>K\<close> in which all the checks hold for it, then \<^verbatim>\<open>WaitDealStates\<close> returns without a
  failure after \<open>m \<le> K\<close> passes (one sleep per pass), where \<open>m\<close> is such that every deal
  has had all its checks hold in one of the passes before \<open>m\<close>, and no smaller number is:
  the wait returns after the pass in which the last deal has its checks hold, not
  earlier. Deals may have their checks hold in different passes. In each pass, the keys
  removed from the map are those of the deals for which every check holds in this pass.
\<close>

theorem WaitDealStates_returns_when_all_satisfied:
  fixes holds :: "nat \<Rightarrow> Cid \<Rightarrow> 'w DealStateCheck \<Rightarrow> bool" and I :: "nat \<Rightarrow> 'w \<Rightarrow> bool"
  assumes order: "\<And>n xs. set (range_order dh n xs) = set xs"
    and ev: "\<And>i w deal. I i w \<Longrightarrow> deal \<in> set deals \<Longrightarrow>
        \<forall>j<i. \<not> (\<forall>c\<in>set stateChecks. holds j deal c) \<Longrightarrow>
      \<exists>di mds ms w1. WaitDealStates_fetch dh ctx deal w = (Inr (di, mds, ms), w1) \<and> I i w1 \<and>
         (\<forall>c\<in>set stateChecks. \<forall>w'. I i w' \<longrightarrow>
            (\<exists>w''. c ctx di ms w' = (Inr (holds i deal c), w'') \<and> I i w''))"
    and sl: "\<And>i w. I i w \<Longrightarrow> I (Suc i) (time_Sleep dh (Second div 2) w)"
    and init: "I 0 w0"
    and reach: "\<forall>deal\<in>set deals. \<exists>i<K. \<forall>c\<in>set stateChecks. holds i deal c"
  shows "(\<exists>m r. WaitDealStates dh ctx deals stateChecks w0 = Some (Inr (), r) \<and> m \<le> K
        \<and> count_list (trace r) (Sleep (Second div 2)) = m
        \<and> (\<forall>deal\<in>set deals. \<exists>j<m. \<forall>c\<in>set stateChecks. holds j deal c)
        \<and> (\<forall>m'<m. \<exists>deal\<in>set deals. \<forall>j<m'. \<not> (\<forall>c\<in>set stateChecks. holds j deal c)))
     \<and> (\<forall>i todo r. I i (world r) \<and>
            set todo \<subseteq> {d \<in> set deals. \<forall>j<i. \<not> (\<forall>c\<in>set stateChecks. holds j d c)} \<longrightarrow>
          fst (WaitDealStates_range dh ctx stateChecks (range_order dh i todo) todo r)
            = Inr (filter (\<lambda>d. \<not> (\<forall>c\<in>set stateChecks. holds i d c)) todo))"
proof -
  define sat where "sat i deal = (\<forall>c\<in>set stateChecks. holds i deal c)" for i deal
  have ev': "\<exists>di mds ms w1 w2. WaitDealStates_fetch dh ctx deal w = (Inr (di, mds, ms), w1)
         \<and> stateChecks_range stateChecks ctx di ms w1 = (Inr (sat i deal), w2) \<and> I i w2"
    if "I i w" "deal \<in> set deals" "\<forall>j<i. \<not> sat j deal" for i w deal
  proof -
    from ev [OF that(1,2)] that(3) obtain di mds ms w1 where
      f: "WaitDealStates_fetch dh ctx deal w = (Inr (di, mds, ms), w1)" and i1: "I i w1"
      and c: "\<forall>c\<in>set stateChecks. \<forall>w'. I i w' \<longrightarrow>
            (\<exists>w''. c ctx di ms w' = (Inr (holds i deal c), w'') \<and> I i w'')"
      unfolding sat_def by blast
    from stateChecks_range_all [of stateChecks "I i" ctx di ms "holds i deal" w1, OF c i1]
    show ?thesis using f unfolding sat_def by blast
  qed
  have reach': "\<forall>deal\<in>set deals. \<exists>i<K. sat i deal" using reach unfolding sat_def .
  have "\<exists>m r'. WaitDealStates_loop dh ctx stateChecks 0 (remdups deals) \<lparr>world = w0, trace = []\<rparr>
          = Some (Inr (), r') \<and> 0 \<le> m \<and> m \<le> K
        \<and> count_list (trace r') (Sleep (Second div 2)) = m
        \<and> (\<forall>deal\<in>set deals. \<exists>j<m. sat j deal)
        \<and> (\<forall>m'. 0 \<le> m' \<and> m' < m \<longrightarrow> (\<exists>deal\<in>set deals. \<forall>j<m'. \<not> sat j deal))"
    by (rule loop_converges [where I = I and k = K, OF order ev' sl reach']) (simp_all add: init)
  then have global: "\<exists>m r. WaitDealStates dh ctx deals stateChecks w0 = Some (Inr (), r) \<and> m \<le> K
        \<and> count_list (trace r) (Sleep (Second div 2)) = m
        \<and> (\<forall>deal\<in>set deals. \<exists>j<m. sat j deal)
        \<and> (\<forall>m'<m. \<exists>deal\<in>set deals. \<forall>j<m'. \<not> sat j deal)"
    unfolding WaitDealStates_def by simp
  have pass: "fst (WaitDealStates_range dh ctx stateChecks (range_order dh i todo) todo r)
            = Inr (filter (\<lambda>d. \<not> sat i d) todo)"
    if "I i (world r)" "set todo \<subseteq> {d \<in> set deals. \<forall>j<i. \<not> sat j d}" for i todo r
  proof -
    have ev'': "\<And>w deal. I i w \<Longrightarrow> deal \<in> {d \<in> set deals. \<forall>j<i. \<not> sat j d} \<Longrightarrow>
      \<exists>di mds ms w1 w2. WaitDealStates_fetch dh ctx deal w = (Inr (di, mds, ms), w1)
         \<and> stateChecks_range stateChecks ctx di ms w1 = (Inr (sat i deal), w2) \<and> I i w2"
      using ev' by simp
    have sub: "set (range_order dh i todo) \<subseteq> {d \<in> set deals. \<forall>j<i. \<not> sat j d}"
      using order that(2) by simp
    from range_filter [of "I i" _ dh ctx stateChecks "sat i" "range_order dh i todo" r todo "Second div 2",
        OF ev'' sub that(1)]
    obtain r' where "WaitDealStates_range dh ctx stateChecks (range_order dh i todo) todo r
             = (Inr (filter (\<lambda>d. \<not> (d \<in> set (range_order dh i todo) \<and> sat i d)) todo), r')"
      by blast
    moreover have "filter (\<lambda>d. \<not> (d \<in> set (range_order dh i todo) \<and> sat i d)) todo
        = filter (\<lambda>d. \<not> sat i d) todo"
      using order by (auto intro: filter_cong)
    ultimately show ?thesis by simp
  qed
  show ?thesis using global pass unfolding sat_def by blast
qed

text \<open>The first scenario of the specification, with a second deal: \<open>D1\<close> is active
  from pass 2 on and \<open>D2\<close> from pass 1 on; the wait returns after three passes.\<close>

theorem WaitDealStates_returns_when_all_satisfied_witness:
  "\<exists>r. WaitDealStates (fixture two_deals no_sectors) background [''D1'', ''D2'']
          [DealState [StorageDealActive]] 0 = Some (Inr (), r)
      \<and> count_list (trace r) (Sleep (Second div 2)) = 3"
proof -
  let ?dh = "fixture two_deals no_sectors"
  let ?cs = "[DealState [StorageDealActive]] :: nat DealStateCheck list"
  define holds :: "nat \<Rightarrow> Cid \<Rightarrow> nat DealStateCheck \<Rightarrow> bool"
    where "holds i deal c = (if deal = ''D1'' then 2 \<le> i else 1 \<le> i)" for i deal c
  define I :: "nat \<Rightarrow> nat \<Rightarrow> bool" where "I i w = (w = i)" for i w
  have order: "\<And>n xs. set (range_order ?dh n xs) = set xs"
    by (simp add: fixture_def)
  have ev: "\<exists>di mds ms w1. WaitDealStates_fetch ?dh background deal w = (Inr (di, mds, ms), w1) \<and> I i w1 \<and>
         (\<forall>c\<in>set ?cs. \<forall>w'. I i w' \<longrightarrow>
            (\<exists>w''. c background di ms w' = (Inr (holds i deal c), w'') \<and> I i w''))"
    if "I i w" "deal \<in> set [''D1'', ''D2'']" "\<forall>j<i. \<not> (\<forall>c\<in>set ?cs. holds j deal c)"
    for i w deal
  proof -
    have w: "w = i" using that(1) by (simp add: I_def)
    from that(2) consider "deal = ''D1''" | "deal = ''D2''" by auto
    then show ?thesis
    proof cases
      case 1
      have "\<not> 2 < i" using that(3) 1 by (auto simp add: holds_def)
      then consider "i = 0" | "i = 1" | "i = 2" by linarith
      then show ?thesis
        by cases (simp_all add: 1 w I_def holds_def eval_simps)
    next
      case 2
      have "\<not> 1 < i" using that(3) 2 by (auto simp add: holds_def)
      then consider "i = 0" | "i = 1" by linarith
      then show ?thesis
        by cases (simp_all add: 2 w I_def holds_def eval_simps)
    qed
  qed
  have sl: "\<And>i w. I i w \<Longrightarrow> I (Suc i) (time_Sleep ?dh (Second div 2) w)"
    by (simp add: I_def fixture_def)
  have init: "I 0 0" by (simp add: I_def)
  have reach: "\<forall>deal\<in>set [''D1'', ''D2'']. \<exists>i<3. \<forall>c\<in>set ?cs. holds i deal c"
    by (auto simp add: holds_def intro: exI [of _ 2])
  from WaitDealStates_returns_when_all_satisfied [of ?dh I "[''D1'', ''D2'']" ?cs holds background 0 3,
      OF order ev sl init reach]
  obtain m r where res: "WaitDealStates ?dh background [''D1'', ''D2''] ?cs 0 = Some (Inr (), r)"
    and le: "m \<le> 3" and cnt: "count_list (trace r) (Sleep (Second div 2)) = m"
    and all: "\<forall>deal\<in>set [''D1'', ''D2'']. \<exists>j<m. \<forall>c\<in>set ?cs. holds j deal c"
    by blast
  from all have "\<exists>j<m. 2 \<le> j" by (simp add: holds_def)
  then have "m = 3" using le by linarith
  then show ?thesis using res cnt by blast
qed

text \<open>
  Claim C3, as amended. The sleep of half a second (500000000 ns) comes after every pass
  that runs to its end, whether keys are left in the map or not: after a pass that
  leaves \<open>todo'\<close> the loop continues from the slept state, and when the pass has emptied
  the map the wait returns from the slept state. So a wait for at least one deal that
  returns normally has slept last; only a wait for no deal returns without a sleep.
\<close>

theorem sleep_after_every_pass:
  "(todo \<noteq> [] \<and>
      WaitDealStates_range dh ctx stateChecks (range_order dh n todo) todo r = (Inr todo', r') \<longrightarrow>
      WaitDealStates_loop dh ctx stateChecks n todo r =
        WaitDealStates_loop dh ctx stateChecks (Suc n) todo'
          \<lparr>world = time_Sleep dh 500000000 (world r'), trace = trace r' @ [Sleep 500000000]\<rparr>)
   \<and> (todo \<noteq> [] \<and>
      WaitDealStates_range dh ctx stateChecks (range_order dh n todo) todo r = (Inr [], r') \<longrightarrow>
      WaitDealStates_loop dh ctx stateChecks n todo r =
        Some (Inr (), \<lparr>world = time_Sleep dh 500000000 (world r'), trace = trace r' @ [Sleep 500000000]\<rparr>))
   \<and> (deals \<noteq> [] \<and> WaitDealStates dh ctx deals stateChecks w = Some (Inr (), rf) \<longrightarrow>
        (\<exists>tr. trace rf = tr @ [Sleep 500000000]))
   \<and> WaitDealStates dh ctx [] stateChecks w = Some (Inr (), \<lparr>world = w, trace = []\<rparr>)"
proof (intro conjI impI)
  assume a: "todo \<noteq> [] \<and>
      WaitDealStates_range dh ctx stateChecks (range_order dh n todo) todo r = (Inr todo', r')"
  then show "WaitDealStates_loop dh ctx stateChecks n todo r =
        WaitDealStates_loop dh ctx stateChecks (Suc n) todo'
          \<lparr>world = time_Sleep dh 500000000 (world r'), trace = trace r' @ [Sleep 500000000]\<rparr>"
    using loop_pass [of todo dh ctx stateChecks n r todo' r']
    by (simp add: sleep_half_second_def Second_def)
next
  assume a: "todo \<noteq> [] \<and>
      WaitDealStates_range dh ctx stateChecks (range_order dh n todo) todo r = (Inr [], r')"
  then show "WaitDealStates_loop dh ctx stateChecks n todo r =
        Some (Inr (), \<lparr>world = time_Sleep dh 500000000 (world r'), trace = trace r' @ [Sleep 500000000]\<rparr>)"
    using loop_pass [of todo dh ctx stateChecks n r "[]" r']
    by (simp add: sleep_half_second_def Second_def loop_empty)
next
  assume a: "deals \<noteq> [] \<and> WaitDealStates dh ctx deals stateChecks w = Some (Inr (), rf)"
  then have "WaitDealStates_loop dh ctx stateChecks 0 (remdups deals) \<lparr>world = w, trace = []\<rparr>
      = Some (Inr (), rf)" by (simp add: WaitDealStates_def)
  from loop_success_slept [OF this] a
  show "\<exists>tr. trace rf = tr @ [Sleep 500000000]" by (simp add: Second_def)
next
  show "WaitDealStates dh ctx [] stateChecks w = Some (Inr (), \<lparr>world = w, trace = []\<rparr>)"
    by (simp add: WaitDealStates_def loop_empty)
qed

text \<open>A pass that leaves both deals in the map, a pass that empties it, and the whole
  wait for the two deals, which ends with a sleep.\<close>

theorem sleep_after_every_pass_witness:
  "WaitDealStates_loop (fixture two_deals no_sectors) background [DealState [StorageDealActive]]
      0 [''D1'', ''D2''] \<lparr>world = 0, trace = []\<rparr>
    = WaitDealStates_loop (fixture two_deals no_sectors) background [DealState [StorageDealActive]]
      1 [''D1'', ''D2'']
      \<lparr>world = 1, trace = [Logf_Deal_state 1 StorageDealAwaitingPreCommit StorageDealUnknown,
                            Logf_Deal_state 2 StorageDealSealing StorageDealUnknown,
                            Sleep 500000000]\<rparr> \<and>
   WaitDealStates_loop (fixture two_deals no_sectors) background [DealState [StorageDealActive]]
      2 [''D1''] \<lparr>world = 2, trace = []\<rparr>
    = Some (Inr (),
      \<lparr>world = 3, trace = [Log_Wait_complete \<lparr>ProposalCid = ''D1'', State = StorageDealActive,
                                                Message = [], DealID = 1\<rparr>,
                            Logf_Deal_state 1 StorageDealActive StorageDealUnknown,
                            Sleep 500000000]\<rparr>) \<and>
   (\<exists>tr. WaitDealStates (fixture two_deals no_sectors) background [''D1'', ''D2'']
            [DealState [StorageDealActive]] 0
          = Some (Inr (), \<lparr>world = 3, trace = tr @ [Sleep 500000000]\<rparr>))"
proof -
  let ?dh = "fixture two_deals no_sectors"
  let ?cs = "[DealState [StorageDealActive]] :: nat DealStateCheck list"
  let ?r1 = "\<lparr>world = 0 :: nat, trace = [Logf_Deal_state 1 StorageDealAwaitingPreCommit StorageDealUnknown,
                            Logf_Deal_state 2 StorageDealSealing StorageDealUnknown]\<rparr>"
  let ?r2 = "\<lparr>world = 2 :: nat, trace = [Log_Wait_complete \<lparr>ProposalCid = ''D1'', State = StorageDealActive,
                                                Message = [], DealID = 1\<rparr>,
                            Logf_Deal_state 1 StorageDealActive StorageDealUnknown]\<rparr>"
  have p1: "[''D1'', ''D2''] \<noteq> ([] :: Cid list) \<and>
      WaitDealStates_range ?dh background ?cs (range_order ?dh 0 [''D1'', ''D2'']) [''D1'', ''D2'']
        \<lparr>world = 0, trace = []\<rparr> = (Inr [''D1'', ''D2''], ?r1)"
    by (simp add: eval_simps)
  have p2: "[''D1''] \<noteq> ([] :: Cid list) \<and>
      WaitDealStates_range ?dh background ?cs (range_order ?dh 2 [''D1'']) [''D1'']
        \<lparr>world = 2, trace = []\<rparr> = (Inr [], ?r2)"
    by (simp add: eval_simps)
  obtain rf where p3: "WaitDealStates ?dh background [''D1'', ''D2''] ?cs 0 = Some (Inr (), rf)"
    and wf: "world rf = 3"
    by (simp add: eval_simps)
  from sleep_after_every_pass [of "[''D1'', ''D2'']" ?dh background ?cs 0 "\<lparr>world = 0, trace = []\<rparr>"
      "[''D1'', ''D2'']" ?r1] p1
  have a: "WaitDealStates_loop ?dh background ?cs 0 [''D1'', ''D2''] \<lparr>world = 0, trace = []\<rparr>
    = WaitDealStates_loop ?dh background ?cs (Suc 0) [''D1'', ''D2'']
        \<lparr>world = time_Sleep ?dh 500000000 (world ?r1), trace = trace ?r1 @ [Sleep 500000000]\<rparr>"
    by blast
  from sleep_after_every_pass [of "[''D1'']" ?dh background ?cs 2 "\<lparr>world = 2, trace = []\<rparr>"
      _ ?r2] p2
  have b: "WaitDealStates_loop ?dh background ?cs 2 [''D1''] \<lparr>world = 2, trace = []\<rparr>
    = Some (Inr (), \<lparr>world = time_Sleep ?dh 500000000 (world ?r2), trace = trace ?r2 @ [Sleep 500000000]\<rparr>)"
    by blast
  have "[''D1'', ''D2''] \<noteq> ([] :: Cid list) \<and>
      WaitDealStates ?dh background [''D1'', ''D2''] ?cs 0 = Some (Inr (), rf)
      \<longrightarrow> (\<exists>tr. trace rf = tr @ [Sleep 500000000])"
    by (rule sleep_after_every_pass [THEN conjunct2, THEN conjunct2, THEN conjunct1])
  then obtain tr where "trace rf = tr @ [Sleep 500000000]" using p3 by auto
  then have "rf = \<lparr>world = 3, trace = tr @ [Sleep 500000000]\<rparr>" using wf by simp
  then have c: "\<exists>tr. WaitDealStates ?dh background [''D1'', ''D2''] ?cs 0
          = Some (Inr (), \<lparr>world = 3, trace = tr @ [Sleep 500000000]\<rparr>)"
    using p3 by blast
  show ?thesis
    unfolding a b using c by (simp add: fixture_def)
qed

text \<open>The claim as stated fails: the only deal is active in the first pass, the pass
  empties the map, and the wait still sleeps before it returns.\<close>

theorem sleep_after_last_pass_counterexample:
  "WaitDealStates_range (fixture active_deals no_sectors) background
      [DealState [StorageDealActive]] [''D1''] [''D1''] \<lparr>world = 0, trace = []\<rparr>
    = (Inr [],
       \<lparr>world = 0, trace = [Log_Wait_complete \<lparr>ProposalCid = ''D1'', State = StorageDealActive,
                                                 Message = [], DealID = 7\<rparr>,
                             Logf_Deal_state 7 StorageDealActive StorageDealUnknown]\<rparr>) \<and>
   WaitDealStates (fixture active_deals no_sectors) background [''D1'']
      [DealState [StorageDealActive]] 0
    = Some (Inr (),
       \<lparr>world = 1, trace = [Log_Wait_complete \<lparr>ProposalCid = ''D1'', State = StorageDealActive,
                                                 Message = [], DealID = 7\<rparr>,
                             Logf_Deal_state 7 StorageDealActive StorageDealUnknown,
                             Sleep 500000000]\<rparr>)"
  by (simp add: eval_simps)

text \<open>
  Claim C4, as amended. Once the subscription has succeeded, the result of
  \<^verbatim>\<open>WaitDealPublished\<close> is decided by the first case taken by the \<^verbatim>\<open>select\<close> that is
  either the \<^verbatim>\<open>ctx.Done()\<close> case or an update of the target deal whose state is fatal or
  success-terminal: the wait ends with the \<open>verdict\<close> of this case (context timeout;
  rejected, failed or errored with the message; normal return for Finalizing,
  AwaitingPreCommit, Sealing and Active). The cases taken before it do not end the wait:
  updates of other deals leave no trace, updates of the target deal in any other state
  are logged. When no case taken decides, the wait stays in its loop. As to which case
  the \<^verbatim>\<open>select\<close> takes at a moment: when the context is done and no update is ready, the
  \<^verbatim>\<open>ctx.Done()\<close> case; when the context is done and an update is ready, the one of the
  two that the runtime picks; when the context is not done, the update that is ready, if
  any.
\<close>

theorem WaitDealPublished_first_deciding_case:
  "WaitDealPublished ctx (Inr moments) deal =
     (case dropWhile (\<lambda>c. \<not> decides deal c) (cases_taken ctx moments) of
        [] \<Rightarrow> None
      | c # rest \<Rightarrow>
          Some (verdict c,
                recorded deal (takeWhile (\<lambda>c. \<not> decides deal c) (cases_taken ctx moments) @ [c])))
   \<and> (Done ctx (now m) \<and> receivable m = None \<longrightarrow> select_takes ctx m = Some ctx_Done)
   \<and> (Done ctx (now m) \<and> receivable m = Some di \<longrightarrow>
        select_takes ctx m = (if picked m = pick_ctx_Done then Some ctx_Done else Some (updates di)))
   \<and> (\<not> Done ctx (now m) \<longrightarrow> select_takes ctx m = map_option updates (receivable m))"
proof (intro conjI impI)
  show "WaitDealPublished ctx (Inr moments) deal =
     (case dropWhile (\<lambda>c. \<not> decides deal c) (cases_taken ctx moments) of
        [] \<Rightarrow> None
      | c # rest \<Rightarrow>
          Some (verdict c,
                recorded deal (takeWhile (\<lambda>c. \<not> decides deal c) (cases_taken ctx moments) @ [c])))"
    by (simp add: WaitDealPublished_def WaitDealPublished_loop_decides cong: list.case_cong)
next
  assume "Done ctx (now m) \<and> receivable m = None"
  then show "select_takes ctx m = Some ctx_Done" by (simp add: select_takes_def)
next
  assume "Done ctx (now m) \<and> receivable m = Some di"
  then show "select_takes ctx m
      = (if picked m = pick_ctx_Done then Some ctx_Done else Some (updates di))"
    by (simp add: select_takes_def)
next
  assume "\<not> Done ctx (now m)"
  then show "select_takes ctx m = map_option updates (receivable m)"
    by (simp add: select_takes_def split: option.splits)
qed

text \<open>Six runs: a normal return after an ignored and a logged update, the three fatal
  states, a context that is done at moment 2, when nothing is ready, before a
  success-terminal update, and a wait left in its loop.\<close>

theorem WaitDealPublished_first_deciding_case_witness:
  "WaitDealPublished background
      (Inr [arrives 0 ''D2'' StorageDealError ''other deal'',
            arrives 1 ''D1'' (StorageDealOther 24) [],
            arrives 2 ''D1'' StorageDealSealing [],
            nothing_arrives 3]) ''D1''
     = Some (Inr (), [Log_Deal_state (StorageDealOther 24),
                      Log_COMPLETE \<lparr>md_ProposalCid = ''D1'', md_State = StorageDealSealing,
                                     md_Message = [], md_DealID = 1\<rparr>]) \<and>
   WaitDealPublished background
      (Inr [arrives 0 ''D1'' (StorageDealOther 24) [],
            arrives 1 ''D1'' StorageDealError ''insufficient funds'',
            arrives 2 ''D1'' StorageDealActive []]) ''D1''
     = Some (Inl (DealErrored ''insufficient funds''), [Log_Deal_state (StorageDealOther 24)]) \<and>
   WaitDealPublished background (Inr [arrives 0 ''D1'' StorageDealProposalRejected []]) ''D1''
     = Some (Inl DealRejected, []) \<and>
   WaitDealPublished background (Inr [arrives 0 ''D1'' StorageDealFailing []]) ''D1''
     = Some (Inl DealFailed, []) \<and>
   select_takes (expiring 2) (nothing_arrives 2) = Some ctx_Done \<and>
   WaitDealPublished (expiring 2)
      (Inr [arrives 0 ''D2'' StorageDealActive [],
            arrives 1 ''D1'' StorageDealUnknown [],
            nothing_arrives 2,
            arrives 3 ''D1'' StorageDealActive []]) ''D1''
     = Some (Inl ContextTimeout, [Log_Deal_state StorageDealUnknown]) \<and>
   WaitDealPublished background
      (Inr [arrives 0 ''D2'' StorageDealActive [],
            arrives 1 ''D1'' StorageDealUnknown [],
            nothing_arrives 2]) ''D1''
     = None"
  using WaitDealPublished_first_deciding_case [of background
      "[arrives 0 ''D2'' StorageDealError ''other deal'',
        arrives 1 ''D1'' (StorageDealOther 24) [],
        arrives 2 ''D1'' StorageDealSealing [],
        nothing_arrives 3]" "''D1''" "arrives 2 ''D1'' StorageDealSealing []"
      "\<lparr>md_ProposalCid = ''D1'', md_State = StorageDealSealing, md_Message = [], md_DealID = 1\<rparr>"]
    WaitDealPublished_first_deciding_case [of background
      "[arrives 0 ''D1'' (StorageDealOther 24) [],
        arrives 1 ''D1'' StorageDealError ''insufficient funds'',
        arrives 2 ''D1'' StorageDealActive []]" "''D1''"]
    WaitDealPublished_first_deciding_case [of background
      "[arrives 0 ''D1'' StorageDealProposalRejected []]" "''D1''"]
    WaitDealPublished_first_deciding_case [of background
      "[arrives 0 ''D1'' StorageDealFailing []]" "''D1''"]
    WaitDealPublished_first_deciding_case [of "expiring 2"
      "[arrives 0 ''D2'' StorageDealActive [],
        arrives 1 ''D1'' StorageDealUnknown [],
        nothing_arrives 2,
        arrives 3 ''D1'' StorageDealActive []]" "''D1''" "nothing_arrives 2"]
    WaitDealPublished_first_deciding_case [of background
      "[arrives 0 ''D2'' StorageDealActive [],
        arrives 1 ''D1'' StorageDealUnknown [],
        nothing_arrives 2]" "''D1''"]
  by (simp add: arrives_def nothing_arrives_def background_def expiring_def cases_taken_simps
        select_takes_def decides_simps verdict_simps classify_def)

text \<open>The claim as stated fails: the context is done at the first moment the wait stands
  at the \<^verbatim>\<open>select\<close>, before any update has been classified; an update of the target deal
  in state Active is ready as well, the runtime picks the receive, and the wait returns
  normally instead of ending with the timeout.\<close>

theorem done_context_without_timeout_counterexample:
  "Done (expiring 0) (now (arrives 0 ''D1'' StorageDealActive [])) \<and>
   WaitDealPublished (expiring 0) (Inr [arrives 0 ''D1'' StorageDealActive []]) ''D1''
     = Some (Inr (), [Log_COMPLETE \<lparr>md_ProposalCid = ''D1'', md_State = StorageDealActive,
                                     md_Message = [], md_DealID = 1\<rparr>])"
  by (simp add: WaitDealPublished_def select_takes_def arrives_def expiring_def)

text \<open>
  Claim C5. A \<open>DealState expect\<close> check returns true exactly when the state of the deal
  is one of \<open>expect\<close>. When it is not, the check ends the test for the states
  ProposalRejected, Failing and Error, with the failure rejected, failed, or errored with
  the message of the deal, and returns false for every other state. The world is not
  touched.
\<close>

theorem DealState_membership:
  "(fst (DealState expect ctx di sn w) = Inr True \<longleftrightarrow> State di \<in> set expect) \<and>
   DealState expect ctx di sn w =
     (if State di \<in> set expect then (Inr True, w)
      else if State di = StorageDealProposalRejected then (Inl DealRejected, w)
      else if State di = StorageDealFailing then (Inl DealFailed, w)
      else if State di = StorageDealError then (Inl (DealErrored (Message di)), w)
      else (Inr False, w))"
  by (cases "State di") (simp_all add: DealState_def DealState_range_iff)

text \<open>An unexpected failed state, an expected state, an expected failed state, and an
  unexpected state that is not a failed one.\<close>

theorem DealState_membership_witness:
  "DealState [StorageDealActive, StorageDealSealing] background
     \<lparr>ProposalCid = ''D1'', State = StorageDealError, Message = ''insufficient funds'', DealID = 7\<rparr> 0 (0::nat)
   = (Inl (DealErrored ''insufficient funds''), 0) \<and>
   DealState [StorageDealActive, StorageDealSealing] background
     \<lparr>ProposalCid = ''D1'', State = StorageDealSealing, Message = [], DealID = 7\<rparr> 0 (0::nat)
   = (Inr True, 0) \<and>
   DealState [StorageDealError] background
     \<lparr>ProposalCid = ''D1'', State = StorageDealError, Message = ''x'', DealID = 7\<rparr> 0 (0::nat)
   = (Inr True, 0) \<and>
   DealState [StorageDealActive] background
     \<lparr>ProposalCid = ''D1'', State = StorageDealOther 3, Message = [], DealID = 7\<rparr> 0 (0::nat)
   = (Inr False, 0)"
  using DealState_membership [of "[StorageDealActive, StorageDealSealing]" background
      "\<lparr>ProposalCid = ''D1'', State = StorageDealError, Message = ''insufficient funds'', DealID = 7\<rparr>" 0 "0::nat"]
    DealState_membership [of "[StorageDealActive, StorageDealSealing]" background
      "\<lparr>ProposalCid = ''D1'', State = StorageDealSealing, Message = [], DealID = 7\<rparr>" 0 "0::nat"]
    DealState_membership [of "[StorageDealError]" background
      "\<lparr>ProposalCid = ''D1'', State = StorageDealError, Message = ''x'', DealID = 7\<rparr>" 0 "0::nat"]
    DealState_membership [of "[StorageDealActive]" background
      "\<lparr>ProposalCid = ''D1'', State = StorageDealOther 3, Message = [], DealID = 7\<rparr>" 0 "0::nat"]
  by simp

text \<open>
  Claim C6. A \<open>DealOn cb states\<close> check never returns false. When the state of the deal
  is not one of \<open>states\<close> it returns true and the callback is not called: the world is
  as before. When the state is one of \<open>states\<close> the callback is called once, on the
  world before (also when \<open>states\<close> lists the state twice), and the check returns true
  in the world the callback leaves; a callback that ends the test ends the check.
\<close>

theorem DealOn_true_and_callback_once:
  "fst (DealOn cb states ctx di sn w) \<noteq> Inr False \<and>
   (State di \<notin> set states \<longrightarrow> DealOn cb states ctx di sn w = (Inr True, w)) \<and>
   (State di \<in> set states \<and> cb w = (Inr (), w') \<longrightarrow>
      DealOn cb states ctx di sn w = (Inr True, w')) \<and>
   (State di \<in> set states \<and> cb w = (Inl e, w') \<longrightarrow>
      DealOn cb states ctx di sn w = (Inl e, w'))"
  by (auto simp add: DealOn_def DealOn_range_eq split: prod.splits sum.splits)

text \<open>A callback that counts its calls: one call for a state listed twice, none for a
  state that is not listed.\<close>

theorem DealOn_true_and_callback_once_witness:
  "DealOn (\<lambda>n. (Inr (), Suc n)) [StorageDealSealing, StorageDealAwaitingPreCommit, StorageDealSealing]
     background \<lparr>ProposalCid = ''D1'', State = StorageDealSealing, Message = [], DealID = 7\<rparr> 0 0
   = (Inr True, 1) \<and>
   DealOn (\<lambda>n. (Inr (), Suc n)) [StorageDealSealing, StorageDealAwaitingPreCommit]
     background \<lparr>ProposalCid = ''D1'', State = StorageDealActive, Message = [], DealID = 7\<rparr> 0 0
   = (Inr True, 0) \<and>
   DealOn (\<lambda>n. (Inl (NoErrorFailed ''sealing''), n)) [StorageDealSealing]
     background \<lparr>ProposalCid = ''D1'', State = StorageDealSealing, Message = [], DealID = 7\<rparr> 0 0
   = (Inl (NoErrorFailed ''sealing''), 0)"
  using DealOn_true_and_callback_once [of "\<lambda>n. (Inr (), Suc n)"
      "[StorageDealSealing, StorageDealAwaitingPreCommit, StorageDealSealing]" background
      "\<lparr>ProposalCid = ''D1'', State = StorageDealSealing, Message = [], DealID = 7\<rparr>" 0 0 1]
    DealOn_true_and_callback_once [of "\<lambda>n. (Inr (), Suc n)"
      "[StorageDealSealing, StorageDealAwaitingPreCommit]" background
      "\<lparr>ProposalCid = ''D1'', State = StorageDealActive, Message = [], DealID = 7\<rparr>" 0 0]
    DealOn_true_and_callback_once [of "\<lambda>n. (Inl (NoErrorFailed ''sealing''), n)"
      "[StorageDealSealing]" background
      "\<lparr>ProposalCid = ''D1'', State = StorageDealSealing, Message = [], DealID = 7\<rparr>" 0 0 0
      "NoErrorFailed ''sealing''"]
  by simp

text \<open>
  Claim C7. A \<open>DealSectorState expect\<close> check returns false for the sector number 0,
  whatever the deal, without a query. For any other sector number it queries the status
  of the sector and returns whether the state of the sector equals \<open>expect\<close>; a query
  that returns an error ends the test.
\<close>

theorem DealSectorState_none_or_equal:
  "DealSectorState dh expect ctx di 0 w = (Inr False, w) \<and>
   (sn \<noteq> 0 \<and> SectorsStatus dh ctx sn False w = (Inr si, w') \<longrightarrow>
      DealSectorState dh expect ctx di sn w = (Inr (si_State si = expect), w')) \<and>
   (sn \<noteq> 0 \<and> SectorsStatus dh ctx sn False w = (Inl err, w') \<longrightarrow>
      DealSectorState dh expect ctx di sn w = (Inl (NoErrorFailed err), w'))"
  by (simp add: DealSectorState_def require_NoError_def)

text \<open>Sector number 0, a sector in the expected state, a sector in another state, and
  a sector the miner does not know.\<close>

theorem DealSectorState_none_or_equal_witness:
  "DealSectorState (fixture active_deals three_sectors) ''Proving'' background
      (active_deals ''D1'' 0) 0 0 = (Inr False, 0) \<and>
   DealSectorState (fixture active_deals three_sectors) ''Proving'' background
      (active_deals ''D1'' 0) 2 0 = (Inr True, 0) \<and>
   DealSectorState (fixture active_deals three_sectors) ''Proving'' background
      (active_deals ''D1'' 0) 1 0 = (Inr False, 0) \<and>
   DealSectorState (fixture active_deals three_sectors) ''Proving'' background
      (active_deals ''D1'' 0) 9 0 = (Inl (NoErrorFailed ''sector not found''), 0)"
proof -
  let ?dh = "fixture active_deals three_sectors"
  have s2: "(2 :: SectorNumber) \<noteq> 0 \<and> SectorsStatus ?dh background 2 False 0
      = (Inr \<lparr>si_State = ''Proving'', Deals = [7, 8]\<rparr>, 0)"
    by (simp add: eval_simps)
  have s1: "(1 :: SectorNumber) \<noteq> 0 \<and> SectorsStatus ?dh background 1 False 0
      = (Inr \<lparr>si_State = ''Packing'', Deals = [5]\<rparr>, 0)"
    by (simp add: eval_simps)
  have s9: "(9 :: SectorNumber) \<noteq> 0 \<and> SectorsStatus ?dh background 9 False 0
      = (Inl ''sector not found'', 0)"
    by (simp add: eval_simps)
  from DealSectorState_none_or_equal [of ?dh "''Proving''" background "active_deals ''D1'' 0" 0
      2 "\<lparr>si_State = ''Proving'', Deals = [7, 8]\<rparr>" 0 "''x''"] s2
  have a: "DealSectorState ?dh ''Proving'' background (active_deals ''D1'' 0) 0 0 = (Inr False, 0)"
    "DealSectorState ?dh ''Proving'' background (active_deals ''D1'' 0) 2 0 = (Inr True, 0)"
    by simp_all
  from DealSectorState_none_or_equal [of ?dh "''Proving''" background "active_deals ''D1'' 0" 0
      1 "\<lparr>si_State = ''Packing'', Deals = [5]\<rparr>" 0 "''x''"] s1
  have b: "DealSectorState ?dh ''Proving'' background (active_deals ''D1'' 0) 1 0 = (Inr False, 0)"
    by simp
  from DealSectorState_none_or_equal [of ?dh "''Proving''" background "active_deals ''D1'' 0" 0
      9 "\<lparr>si_State = ''Packing'', Deals = [5]\<rparr>" 0 "''sector not found''"] s9
  have c: "DealSectorState ?dh ''Proving'' background (active_deals ''D1'' 0) 9 0
      = (Inl (NoErrorFailed ''sector not found''), 0)"
    by simp
  show ?thesis using a b c by simp
qed

text \<open>
  Claim C8. Let the queries before \<^verbatim>\<open>sloop\<close> succeed, with \<open>sl\<close> the list of sectors, and
  let \<open>holds s\<close> say whether the status returned for the listed sector \<open>s\<close> has the
  \<^verbatim>\<open>DealID\<close> of the deal among its \<^verbatim>\<open>Deals\<close>. Then the sector number found is the first
  \<open>s\<close> of \<open>sl\<close> with \<open>holds s\<close>, and 0 when there is none.
\<close>

theorem lookup_returns_first_sector_holding_the_deal:
  assumes "ClientGetDealInfo dh ctx deal w = (Inr di, w1)"
    and "MarketListIncompleteDeals dh ctx w1 = (Inr mds, w2)"
    and "SectorsList dh ctx w2 = (Inr sl, w3)"
    and "\<forall>s\<in>set sl. \<forall>w. \<exists>si w'.
      SectorsStatus dh ctx s False w = (Inr si, w') \<and> (DealID di \<in> set (Deals si) \<longleftrightarrow> holds s)"
  shows "\<exists>w4. WaitDealStates_fetch dh ctx deal w =
           (Inr (di, mds, case List.find holds sl of Some s \<Rightarrow> s | None \<Rightarrow> 0), w4)"
proof -
  from sloop_first [OF assms(4), of w3] obtain w4 where
    "sloop dh ctx (DealID di) sl w3 = (Inr (case List.find holds sl of Some s \<Rightarrow> s | None \<Rightarrow> 0), w4)"
    by blast
  then show ?thesis using assms(1-3)
    by (simp add: WaitDealStates_fetch_def require_NoError_def)
qed

text \<open>The deal 7 is held by the sectors 2 and 3, listed after sector 1: the sector found
  is 2. The deal 1 is held by no sector: the sector found is 0.\<close>

theorem lookup_returns_first_sector_holding_the_deal_witness:
  "WaitDealStates_fetch (fixture active_deals three_sectors) background ''D1'' 0
     = (Inr (\<lparr>ProposalCid = ''D1'', State = StorageDealActive, Message = [], DealID = 7\<rparr>, [], 2), 0) \<and>
   WaitDealStates_fetch (fixture two_deals three_sectors) background ''D1'' 0
     = (Inr (\<lparr>ProposalCid = ''D1'', State = StorageDealAwaitingPreCommit, Message = [], DealID = 1\<rparr>,
             [], 0), 0)"
proof -
  let ?dh = "fixture active_deals three_sectors"
  let ?dh2 = "fixture two_deals three_sectors"
  let ?di = "\<lparr>ProposalCid = ''D1'', State = StorageDealActive, Message = [], DealID = 7\<rparr>"
  let ?di2 = "\<lparr>ProposalCid = ''D1'', State = StorageDealAwaitingPreCommit, Message = [], DealID = 1\<rparr>"
  have h1: "ClientGetDealInfo ?dh background ''D1'' 0 = (Inr ?di, 0)" by (simp add: eval_simps)
  have h2: "MarketListIncompleteDeals ?dh background 0 = (Inr [], 0)" by (simp add: eval_simps)
  have h3: "SectorsList ?dh background 0 = (Inr [1, 2, 3], 0)" by (simp add: eval_simps)
  have h4: "\<forall>s\<in>set [1, 2, 3]. \<forall>w. \<exists>si w'. SectorsStatus ?dh background s False w = (Inr si, w')
      \<and> (DealID ?di \<in> set (Deals si) \<longleftrightarrow> (s = 2 \<or> s = 3))"
    by (simp add: eval_simps)
  have k1: "ClientGetDealInfo ?dh2 background ''D1'' 0 = (Inr ?di2, 0)" by (simp add: eval_simps)
  have k2: "MarketListIncompleteDeals ?dh2 background 0 = (Inr [], 0)" by (simp add: eval_simps)
  have k3: "SectorsList ?dh2 background 0 = (Inr [1, 2, 3], 0)" by (simp add: eval_simps)
  have k4: "\<forall>s\<in>set [1, 2, 3]. \<forall>w. \<exists>si w'. SectorsStatus ?dh2 background s False w = (Inr si, w')
      \<and> (DealID ?di2 \<in> set (Deals si) \<longleftrightarrow> False)"
    by (simp add: eval_simps)
  from lookup_returns_first_sector_holding_the_deal [OF h1 h2 h3 h4]
  obtain w4 where a: "WaitDealStates_fetch ?dh background ''D1'' 0 = (Inr (?di, [], 2), w4)"
    by auto
  from lookup_returns_first_sector_holding_the_deal [OF k1 k2 k3 k4]
  obtain w5 where b: "WaitDealStates_fetch ?dh2 background ''D1'' 0 = (Inr (?di2, [], 0), w5)"
    by auto
  have "snd (WaitDealStates_fetch ?dh background ''D1'' 0) = 0"
    "snd (WaitDealStates_fetch ?dh2 background ''D1'' 0) = 0"
    by (simp_all add: eval_simps)
  then show ?thesis using a b by simp
qed

text \<open>
  Claim C9. \<^verbatim>\<open>WaitDealStates\<close> passes \<open>ctx\<close> to the queries and to the checks and never
  reads \<open>Done ctx\<close>. For every context, whatever \<open>Done ctx\<close> is at any moment: when, in
  the worlds \<open>I\<close> reached, the queries keep succeeding and the checks return without
  ending the test, and for one of the deals waited for, \<open>d0\<close>, they never all return
  true, the wait never returns.
\<close>

theorem WaitDealStates_runs_forever_whatever_ctx:
  assumes ev: "\<And>w deal. I w \<Longrightarrow>
      \<exists>di mds ms w1 b w2. WaitDealStates_fetch dh ctx deal w = (Inr (di, mds, ms), w1)
         \<and> stateChecks_range stateChecks ctx di ms w1 = (Inr b, w2) \<and> I w2 \<and> (deal = d0 \<longrightarrow> \<not> b)"
    and sl: "\<And>w. I w \<Longrightarrow> I (time_Sleep dh (Second div 2) w)"
    and init: "I w0"
    and d0: "d0 \<in> set deals"
  shows "WaitDealStates dh ctx deals stateChecks w0 = None"
proof -
  define J where "J todo r = (d0 \<in> set todo \<and> I (world r))" for todo :: "Cid list" and r :: "'a run"
  have step: "todo \<noteq> [] \<and>
      (\<exists>todo' r'. WaitDealStates_range dh ctx stateChecks (range_order dh n todo) todo r = (Inr todo', r')
          \<and> J todo' (sleep_half_second dh r'))" if "J todo r" for n todo r
  proof -
    from that have i: "I (world r)" and t: "d0 \<in> set todo" by (simp_all add: J_def)
    from range_keeps [of I dh ctx stateChecks d0 todo r "range_order dh n todo", OF ev t i]
    obtain todo' r' where
      "WaitDealStates_range dh ctx stateChecks (range_order dh n todo) todo r = (Inr todo', r')"
      "d0 \<in> set todo'" "I (world r')" by blast
    then show ?thesis using t sl by (auto simp add: J_def sleep_half_second_def)
  qed
  have "J (remdups deals) \<lparr>world = w0, trace = []\<rparr>"
    using init d0 by (simp add: J_def)
  from loop_diverges [of J dh ctx stateChecks, OF step this]
  show ?thesis by (simp add: WaitDealStates_def)
qed

text \<open>A context that is done from the first sleep on: \<open>D1\<close> is done in the first pass,
  \<open>D2\<close> stays in Sealing, and the wait never returns.\<close>

theorem WaitDealStates_runs_forever_whatever_ctx_witness:
  "\<not> Done (expiring 1) 0 \<and> Done (expiring 1) 1 \<and>
   WaitDealStates (fixture stalled_deals no_sectors) (expiring 1) [''D1'', ''D2'']
     [DealState [StorageDealActive]] 0 = None"
proof -
  let ?dh = "fixture stalled_deals no_sectors"
  have ev: "\<And>w deal. True \<Longrightarrow>
      \<exists>di mds ms w1 b w2. WaitDealStates_fetch ?dh (expiring 1) deal w = (Inr (di, mds, ms), w1)
         \<and> stateChecks_range [DealState [StorageDealActive]] (expiring 1) di ms w1 = (Inr b, w2)
         \<and> True \<and> (deal = ''D2'' \<longrightarrow> \<not> b)"
    by (auto simp add: eval_simps)
  have "WaitDealStates ?dh (expiring 1) [''D1'', ''D2''] [DealState [StorageDealActive]] 0 = None"
    by (rule WaitDealStates_runs_forever_whatever_ctx [where I = "\<lambda>w. True" and ?d0.0 = "''D2''", OF ev])
      simp_all
  then show ?thesis by (simp add: expiring_def)
qed



end
